theory Spec2Isabelle
  imports Complex_Main "HOL-Library.Sublist" "HOL-Library.Log_Nat"
begin

section \<open>Thrown errors\<close>

text \<open>
  A JavaScript exception is a value: \<open>Error msg\<close> stands for a thrown \<^verbatim>\<open>Error\<close> with
  that message.  A function that may throw returns \<open>error + 'a\<close>, with \<open>Inl\<close> the throw.
\<close>

datatype error = Error string


section \<open>BigInt arithmetic and decimal rendering\<close>

text \<open>
  \<^verbatim>\<open>bigint\<close> values are unbounded integers.  Their division truncates toward zero, while
  \<open>div\<close> on \<open>int\<close> rounds down, so it is written out.
\<close>

definition bigint_div :: "int \<Rightarrow> int \<Rightarrow> int" where
  "bigint_div a b = sgn a * sgn b * (\<bar>a\<bar> div \<bar>b\<bar>)"

definition digitChar :: "int \<Rightarrow> char" where
  "digitChar n = ''0123456789'' ! nat n"

function showNat :: "int \<Rightarrow> string" where
  "showNat n = (if n < 10 then [digitChar n] else showNat (n div 10) @ [digitChar (n mod 10)])"
  by pat_completeness auto
termination
  by (relation "measure nat") auto

declare showNat.simps [simp del]

text \<open>
  The decimal text of an integer, as a template literal \<^verbatim>\<open>${n}\<close> renders a bigint;
  \<open>showNat\<close> prints the digits of a non-negative one.
\<close>

definition showInt :: "int \<Rightarrow> string" where
  "showInt n = (if n < 0 then CHR ''-'' # showNat (- n) else showNat n)"

text \<open>\<^verbatim>\<open>String.prototype.toLowerCase\<close> on the ASCII letters (addresses are ASCII hex text).\<close>

definition lowerChar :: "char \<Rightarrow> char" where
  "lowerChar c = (let n = (of_char c :: nat) in if 65 \<le> n \<and> n \<le> 90 then char_of (n + 32) else c)"

definition toLowerCase :: "string \<Rightarrow> string" where
  "toLowerCase s = map lowerChar s"

text \<open>\<^verbatim>\<open>s.slice(a, b)\<close> for \<open>0 \<le> a \<le> b\<close>.\<close>

definition slice :: "nat \<Rightarrow> nat \<Rightarrow> string \<Rightarrow> string" where
  "slice a b s = take (b - a) (drop a s)"

section \<open>JavaScript numbers\<close>

text \<open>
  A finite JavaScript \<^verbatim>\<open>number\<close> is a rational.  Every arithmetic operation, every
  numeric literal and every conversion to \<^verbatim>\<open>number\<close> yields the exact result rounded to
  the number format; the rounding is the parameter \<open>rd\<close> of the model.  \<open>binary64\<close> below
  is the rounding of IEEE 754 double precision (round to nearest, ties to even, with
  gradual underflow); \<open>exact\<close> is arithmetic without rounding.  \<open>binary64\<close> has no
  \<^verbatim>\<open>Infinity\<close> and no \<^verbatim>\<open>NaN\<close>.  Where the code converts an overflowing number back to a
  bigint (\<^verbatim>\<open>BigInt(Math.floor(Infinity))\<close>) it throws, and the model throws there as well, on
  the range check of \<^verbatim>\<open>formatUnits\<close> that follows (see \<open>calculatePrice\<close>).  Past that check
  only the product with the spot price can overflow, for a spot price beyond \<open>10\<^sup>1\<^sup>7\<^sup>2\<close>, and
  the clamps then give the final price they give in the model.
\<close>

type_synonym rounding = "rat \<Rightarrow> rat"

definition pow2 :: "int \<Rightarrow> rat" where
  "pow2 e = (if 0 \<le> e then 2 ^ nat e else 1 / 2 ^ nat (- e))"

definition roundHalfEven :: "rat \<Rightarrow> int" where
  "roundHalfEven q =
     (let f = \<lfloor>q\<rfloor>; d = q - of_int f
      in if d < 1 / 2 then f else if 1 / 2 < d then f + 1 else if even f then f else f + 1)"

text \<open>\<open>ilog2 q\<close> is \<open>\<lfloor>log\<^sub>2 q\<rfloor>\<close> for \<open>q > 0\<close>, from the bit lengths of numerator and denominator.\<close>

definition ilog2 :: "rat \<Rightarrow> int" where
  "ilog2 q = (case quotient_of q of (p, d) \<Rightarrow>
     (let e = bitlen p - bitlen d in if pow2 e \<le> q then e else e - 1))"

definition binary64 :: rounding where
  "binary64 x =
     (if x = 0 then 0
      else let e = max (ilog2 \<bar>x\<bar> - 52) (- 1074);
               m = roundHalfEven (\<bar>x\<bar> / pow2 e)
           in sgn x * of_int m * pow2 e)"

definition exact :: rounding where
  "exact x = x"

definition fadd :: "rounding \<Rightarrow> rat \<Rightarrow> rat \<Rightarrow> rat" where
  "fadd rd x y = rd (x + y)"

definition fsub :: "rounding \<Rightarrow> rat \<Rightarrow> rat \<Rightarrow> rat" where
  "fsub rd x y = rd (x - y)"

definition fmul :: "rounding \<Rightarrow> rat \<Rightarrow> rat \<Rightarrow> rat" where
  "fmul rd x y = rd (x * y)"

definition fdiv :: "rounding \<Rightarrow> rat \<Rightarrow> rat \<Rightarrow> rat" where
  "fdiv rd x y = rd (x / y)"

text \<open>\<^verbatim>\<open>Number(n)\<close> for a bigint \<open>n\<close>.\<close>

definition Number_of_bigint :: "rounding \<Rightarrow> int \<Rightarrow> rat" where
  "Number_of_bigint rd n = rd (of_int n)"

text \<open>
  \<^verbatim>\<open>Number(formatUnits(v, d))\<close> and \<^verbatim>\<open>parseFloat(formatUnits(v, d))\<close>: \<^verbatim>\<open>formatUnits\<close>
  prints the exact decimal expansion of \<open>v / 10\<^sup>d\<close>, which is then read as a number.
\<close>

definition Number_formatUnits :: "rounding \<Rightarrow> int \<Rightarrow> nat \<Rightarrow> rat" where
  "Number_formatUnits rd v d = rd (of_int v / 10 ^ d)"

text \<open>
  \<^verbatim>\<open>formatUnits\<close> and \<^verbatim>\<open>formatEther\<close> of ethers go through a signed fixed-point number
  512 bits wide and throw (``overflow'') when the value does not fit.  The callers below
  test \<open>formatUnitsRange\<close> at the place of the call and throw when it fails.
\<close>

definition formatUnitsRange :: "int \<Rightarrow> bool" where
  "formatUnitsRange v \<longleftrightarrow> - (2 ^ 511) \<le> v \<and> v < 2 ^ 511"

text \<open>
  \<^verbatim>\<open>parseUnits(x.toFixed(6), 6)\<close>: \<^verbatim>\<open>toFixed(6)\<close> prints the integer \<open>n\<close> for which
  \<open>n / 10\<^sup>6\<close> is closest to \<open>\<bar>x\<bar>\<close>, the larger one on a tie, with the sign of \<open>x\<close>;
  \<^verbatim>\<open>parseUnits\<close> reads that integer back.  (For \<open>\<bar>x\<bar> < 10\<^sup>2\<^sup>1\<close>; prices are at most 10.)
\<close>

definition toFixed6 :: "rat \<Rightarrow> int" where
  "toFixed6 x = (if x < 0 then - \<lfloor>- x * 10 ^ 6 + 1 / 2\<rfloor> else \<lfloor>x * 10 ^ 6 + 1 / 2\<rfloor>)"

section \<open>Configuration (env.ts, constants.ts)\<close>

record Env =
  CHAIN_ID :: int
  RELAYER_PRIVATE_KEY :: string
  USDC_ADDRESS :: string
  FORWARDER_ADDRESS :: string
  RECEIVING_WALLET :: string
  MARKUP_PERCENTAGE :: rat
  MIN_PRICE_USDC :: rat

text \<open>
  The constraints \<^verbatim>\<open>envSchema\<close> puts on the two pricing values:
  \<^verbatim>\<open>MARKUP_PERCENTAGE: z.coerce.number().min(0).max(100)\<close> and
  \<^verbatim>\<open>MIN_PRICE_USDC: z.coerce.number().positive()\<close>.  The process exits at start-up when
  they fail.
\<close>

definition envSchema :: "Env \<Rightarrow> bool" where
  "envSchema env \<longleftrightarrow>
     0 \<le> MARKUP_PERCENTAGE env \<and> MARKUP_PERCENTAGE env \<le> 100 \<and> 0 < MIN_PRICE_USDC env"

definition MAX_PRICE_USDC :: "rounding \<Rightarrow> rat" where
  "MAX_PRICE_USDC rd = rd 10"

definition QUOTE_VALIDITY_SECONDS :: int where
  "QUOTE_VALIDITY_SECONDS = 60"

section \<open>Pricing (pricing.service.ts)\<close>

datatype Priority = Slow | Normal | Fast

record PriorityConfig =
  label :: string
  markupMultiplier :: rat
  gasPriceMultiplier :: rat
  estimatedTime :: string

definition PRIORITY_CONFIGS :: "rounding \<Rightarrow> Priority \<Rightarrow> PriorityConfig" where
  "PRIORITY_CONFIGS rd priority =
     (case priority of
        Slow \<Rightarrow> \<lparr>label = ''Slow'', markupMultiplier = rd (1 / 2), gasPriceMultiplier = rd (4 / 5),
                 estimatedTime = ''~30 sec''\<rparr>
      | Normal \<Rightarrow> \<lparr>label = ''Normal'', markupMultiplier = rd 1, gasPriceMultiplier = rd 1,
                   estimatedTime = ''~10 sec''\<rparr>
      | Fast \<Rightarrow> \<lparr>label = ''Fast'', markupMultiplier = rd 2, gasPriceMultiplier = rd (3 / 2),
                 estimatedTime = ''~3 sec''\<rparr>)"

text \<open>
  \<^verbatim>\<open>PriceQuote\<close>.  \<open>adjustedGasPrice\<close> is the bigint that \<^verbatim>\<open>gasPriceGwei\<close> prints,
  \<open>finalPriceUSD\<close> the number that \<^verbatim>\<open>finalPriceUSDC\<close> prints with six decimals; the random
  quote nonce is omitted.  The fields \<^verbatim>\<open>gasEstimate\<close> and \<^verbatim>\<open>priority\<close> are named
  \<open>quoteGasEstimate\<close> and \<open>quotePriority\<close>.
\<close>

record PriceQuote =
  quoteGasEstimate :: int
  adjustedGasPrice :: int
  croUsdPrice :: rat
  baseCostUSD :: rat
  markup :: rat
  finalPriceUSD :: rat
  finalPriceRaw :: int
  validUntil :: int
  quotePriority :: Priority
  priorityConfig :: PriorityConfig

text \<open>
  The body of \<^verbatim>\<open>calculatePrice\<close> after \<^verbatim>\<open>const baseGasPrice = await walletService.getGasPrice()\<close>.
  \<open>cro\<close> is \<^verbatim>\<open>this.croUsdPrice\<close>, \<open>now\<close> is \<^verbatim>\<open>Date.now()\<close> in milliseconds.
\<close>

definition quoteFor :: "rounding \<Rightarrow> Env \<Rightarrow> rat \<Rightarrow> int \<Rightarrow> int \<Rightarrow> int \<Rightarrow> Priority \<Rightarrow> PriceQuote" where
  "quoteFor rd env cro now baseGasPrice gasEstimate priority =
     (let priorityConfig = PRIORITY_CONFIGS rd priority;
          adjustedGasPrice = \<lfloor>fmul rd (Number_of_bigint rd baseGasPrice) (gasPriceMultiplier priorityConfig)\<rfloor>;
          gasCostWei = gasEstimate * adjustedGasPrice;
          gasCostCro = Number_formatUnits rd gasCostWei 18;
          baseCostUSD = fmul rd gasCostCro cro;
          baseMarkup = fadd rd 1 (fdiv rd (MARKUP_PERCENTAGE env) 100);
          markup = fadd rd 1 (fmul rd (fsub rd baseMarkup 1) (markupMultiplier priorityConfig));
          finalPriceUSD = fmul rd baseCostUSD markup;
          minPrice = fmul rd (MIN_PRICE_USDC env) (markupMultiplier priorityConfig);
          finalPriceUSD = max finalPriceUSD (max minPrice (rd (5 / 1000)));
          finalPriceUSD = min finalPriceUSD (MAX_PRICE_USDC rd);
          finalPriceRaw = toFixed6 finalPriceUSD
      in \<lparr>quoteGasEstimate = gasEstimate, adjustedGasPrice = adjustedGasPrice, croUsdPrice = cro,
          baseCostUSD = baseCostUSD, markup = markup, finalPriceUSD = finalPriceUSD,
          finalPriceRaw = finalPriceRaw,
          validUntil = now + QUOTE_VALIDITY_SECONDS * 1000,
          quotePriority = priority, priorityConfig = priorityConfig\<rparr>)"

section \<open>Relayer pool (relayer-pool.service.ts)\<close>

text \<open>
  \<^verbatim>\<open>interface RelayerState { wallet; address; pendingTxCount; lastUsed; nonce }\<close>.
  The wallet is represented by its private key string; the three counters are JavaScript
  numbers that only ever hold integers.
\<close>

record RelayerState =
  wallet :: string
  address :: string
  pendingTxCount :: int
  lastUsed :: int
  nonce :: int

record RelayerPoolService =
  relayers :: "RelayerState list"
  currentIndex :: nat
  initialized :: bool

text \<open>
  The loop of \<^verbatim>\<open>getRelayer\<close>:
  \<^verbatim>\<open>for (const relayer of this.relayers) {
       if (relayer.pendingTxCount < bestRelayer.pendingTxCount) bestRelayer = relayer; }\<close>
  with \<open>best\<close> the loop variable \<^verbatim>\<open>bestRelayer\<close>.
\<close>

fun leastBusy :: "RelayerState \<Rightarrow> RelayerState list \<Rightarrow> RelayerState" where
  "leastBusy best [] = best"
| "leastBusy best (relayer # rest) =
     leastBusy (if pendingTxCount relayer < pendingTxCount best then relayer else best) rest"

definition getRelayer :: "RelayerPoolService \<Rightarrow> error + RelayerState" where
  "getRelayer pool =
     (if \<not> initialized pool \<or> length (relayers pool) = 0
      then Inl (Error ''Relayer pool not initialized'')
      else Inr (leastBusy (relayers pool ! 0) (relayers pool)))"

text \<open>
  \<^verbatim>\<open>getAndIncrementNonce\<close> and \<^verbatim>\<open>markComplete\<close> mutate the relayer object they are handed,
  which is an element of \<^verbatim>\<open>this.relayers\<close>; the model names it by its index \<open>i\<close> and
  returns the updated pool.  \<open>now\<close> is the value of \<^verbatim>\<open>Date.now()\<close>.
\<close>

definition getAndIncrementNonce :: "int \<Rightarrow> RelayerPoolService \<Rightarrow> nat \<Rightarrow> int \<times> RelayerPoolService" where
  "getAndIncrementNonce now pool i =
     (let relayer = relayers pool ! i
      in (nonce relayer,
          pool\<lparr>relayers := (relayers pool)[i := relayer\<lparr>
                 nonce := nonce relayer + 1,
                 pendingTxCount := pendingTxCount relayer + 1,
                 lastUsed := now\<rparr>]\<rparr>))"

definition markComplete :: "RelayerPoolService \<Rightarrow> nat \<Rightarrow> RelayerPoolService" where
  "markComplete pool i =
     (let relayer = relayers pool ! i
      in pool\<lparr>relayers := (relayers pool)[i := relayer\<lparr>
                 pendingTxCount := max 0 (pendingTxCount relayer - 1)\<rparr>]\<rparr>)"

text \<open>The pool right after \<^verbatim>\<open>initialize\<close>, for keys whose pending nonces are given.\<close>

definition initialRelayer :: "string \<times> string \<times> int \<Rightarrow> RelayerState" where
  "initialRelayer k = (case k of (key, addr, n) \<Rightarrow>
     \<lparr>wallet = key, address = addr, pendingTxCount = 0, lastUsed = 0, nonce = n\<rparr>)"

definition initializedPool :: "(string \<times> string \<times> int) list \<Rightarrow> RelayerPoolService" where
  "initializedPool keys = \<lparr>relayers = map initialRelayer keys, currentIndex = 0, initialized = True\<rparr>"

section \<open>Requests, payments and the chain\<close>

text \<open>
  \<^verbatim>\<open>ForwardRequest\<close>.  The numeric fields travel as decimal strings and are read with
  \<^verbatim>\<open>BigInt(...)\<close>; the record holds the integers they denote.
\<close>

record ForwardRequest =
  req_from :: string
  req_to :: string
  req_value :: int
  req_gas :: int
  req_nonce :: int
  req_deadline :: int
  req_data :: string

text \<open>
  \<^verbatim>\<open>X402Authorization\<close> and \<^verbatim>\<open>X402Payment\<close>.  \<open>auth_value\<close>, \<open>validAfter\<close> and
  \<open>validBefore\<close> are the integers denoted by the decimal strings of the header (read with
  \<^verbatim>\<open>BigInt\<close> and \<^verbatim>\<open>Number\<close>; the clock and Unix times are far below \<open>2\<^sup>5\<^sup>3\<close>, where
  \<^verbatim>\<open>Number\<close> is exact).
\<close>

record X402Authorization =
  auth_from :: string
  auth_to :: string
  auth_value :: int
  validAfter :: int
  validBefore :: int
  auth_nonce :: string

record X402Payload =
  payload_signature :: string
  authorization :: X402Authorization

record X402Payment =
  version :: int
  scheme :: string
  network :: string
  payload :: X402Payload

text \<open>
  What \<^verbatim>\<open>interface.parseLog(log)\<close> makes of a log of a receipt: it throws, returns
  \<^verbatim>\<open>null\<close>, or returns a description with a name and arguments; of the arguments of an
  \<^verbatim>\<open>Executed\<close> event only \<^verbatim>\<open>args[2]\<close> and \<^verbatim>\<open>args[3]\<close> are read.
\<close>

record LogDescription =
  log_name :: string
  log_success :: bool
  log_result :: string

type_synonym log = "error + LogDescription option"

record TransactionReceipt =
  receipt_status :: "int option"
  receipt_hash :: string
  receipt_logs :: "log list"

text \<open>The two contract methods the relay sends as transactions, with their arguments.\<close>

datatype contractCall =
    TransferWithAuthorization X402Authorization string string string
  | Execute ForwardRequest string

text \<open>
  Everything the server does to the outside world is an event, recorded in order in a
  trace together with its outcome: a view call, a gas estimate, a transaction signed by
  a wallet and sent, the wait for a receipt, a logged warning or error.
\<close>

datatype event =
    VerifyRead ForwardRequest string "error + bool"
  | FeeDataRead "error + int option"
  | AuthorizationStateRead string string "error + bool"
  | BalanceOfRead string "error + int"
  | NativeBalanceRead string "error + int"
  | GasEstimated string contractCall "error + int"
  | TxSent string contractCall "int option" "error + string"
  | ReceiptAwaited string "error + TransactionReceipt"
  | Logged string

text \<open>
  The chain and the clock are the environment: each answer is an arbitrary function of
  the call and of the trace so far, and any call through the RPC provider may throw.
\<close>

record chain =
  dateNow :: "event list \<Rightarrow> int"
  getFeeData :: "event list \<Rightarrow> error + int option"
  getBalance :: "event list \<Rightarrow> string \<Rightarrow> error + int"
  forwarderVerify :: "event list \<Rightarrow> ForwardRequest \<Rightarrow> string \<Rightarrow> error + bool"
  authorizationState :: "event list \<Rightarrow> string \<Rightarrow> string \<Rightarrow> error + bool"
  balanceOf :: "event list \<Rightarrow> string \<Rightarrow> error + int"
  estimateGas :: "event list \<Rightarrow> string \<Rightarrow> contractCall \<Rightarrow> error + int"
  sendTransaction :: "event list \<Rightarrow> string \<Rightarrow> contractCall \<Rightarrow> int option \<Rightarrow> error + string"
  waitReceipt :: "event list \<Rightarrow> string \<Rightarrow> error + TransactionReceipt"

section \<open>Services\<close>

text \<open>
  An ethers \<^verbatim>\<open>Contract\<close> is an address and the runner that signs its transactions.
  \<^verbatim>\<open>WalletService\<close> builds its wallet from \<^verbatim>\<open>env.RELAYER_PRIVATE_KEY\<close>; the constructors
  of \<^verbatim>\<open>ForwarderService\<close> and \<^verbatim>\<open>PaymentService\<close> hand \<^verbatim>\<open>walletService.wallet\<close> to their
  contracts.  A wallet is represented by its private key.
\<close>

record Contract =
  target :: string
  runner :: string

record WalletService =
  relayerWallet :: string

record ForwarderService =
  forwarderContract :: Contract

record PaymentService =
  usdcContract :: Contract

record PricingService =
  pricingCroUsdPrice :: rat

definition newWalletService :: "Env \<Rightarrow> WalletService" where
  "newWalletService env = \<lparr>relayerWallet = RELAYER_PRIVATE_KEY env\<rparr>"

definition newForwarderService :: "Env \<Rightarrow> WalletService \<Rightarrow> ForwarderService" where
  "newForwarderService env walletService =
     \<lparr>forwarderContract = \<lparr>target = FORWARDER_ADDRESS env, runner = relayerWallet walletService\<rparr>\<rparr>"

definition newPaymentService :: "Env \<Rightarrow> WalletService \<Rightarrow> PaymentService" where
  "newPaymentService env walletService =
     \<lparr>usdcContract = \<lparr>target = USDC_ADDRESS env, runner = relayerWallet walletService\<rparr>\<rparr>"

subsection \<open>wallet.service.ts\<close>

text \<open>\<^verbatim>\<open>getGasPrice\<close>: \<^verbatim>\<open>feeData.gasPrice ?? 5000000000000n\<close>.\<close>

definition getGasPrice :: "chain \<Rightarrow> event list \<Rightarrow> (error + int) \<times> event list" where
  "getGasPrice ch tr =
     (let feeData = getFeeData ch tr; tr' = tr @ [FeeDataRead feeData]
      in case feeData of
           Inl e \<Rightarrow> (Inl e, tr')
         | Inr None \<Rightarrow> (Inr 5000000000000, tr')
         | Inr (Some gasPrice) \<Rightarrow> (Inr gasPrice, tr'))"

subsection \<open>pricing.service.ts\<close>

text \<open>
  \<^verbatim>\<open>calculatePrice\<close> reads the gas price and builds the quote.  It throws when the read
  throws, and when one of its two calls of \<^verbatim>\<open>formatUnits\<close>, on the adjusted gas price and
  on the gas cost in wei, is out of range; nothing is sent to the chain in between.
\<close>

definition calculatePrice ::
  "rounding \<Rightarrow> Env \<Rightarrow> PricingService \<Rightarrow> chain \<Rightarrow> int \<Rightarrow> Priority \<Rightarrow> event list
     \<Rightarrow> (error + PriceQuote) \<times> event list" where
  "calculatePrice rd env pricing ch gasEstimate priority tr =
     (case getGasPrice ch tr of
        (Inl e, tr') \<Rightarrow> (Inl e, tr')
      | (Inr baseGasPrice, tr') \<Rightarrow>
          (let quote = quoteFor rd env (pricingCroUsdPrice pricing) (dateNow ch tr') baseGasPrice
                         gasEstimate priority
           in if formatUnitsRange (adjustedGasPrice quote)
                 \<and> formatUnitsRange (gasEstimate * adjustedGasPrice quote)
              then (Inr quote, tr')
              else (Inl (Error ''overflow''), tr')))"

subsection \<open>forwarder.service.ts\<close>

definition verify ::
  "ForwarderService \<Rightarrow> chain \<Rightarrow> ForwardRequest \<Rightarrow> string \<Rightarrow> event list \<Rightarrow> bool \<times> event list" where
  "verify fs ch request signature tr =
     (let outcome = forwarderVerify ch tr request signature;
          tr' = tr @ [VerifyRead request signature outcome]
      in case outcome of
           Inl e \<Rightarrow> (False, tr' @ [Logged ''Verification failed''])
         | Inr b \<Rightarrow> (b, tr'))"

record ExecuteResult =
  txHash :: string
  success :: bool
  result :: string

definition isExecuted :: "log \<Rightarrow> bool" where
  "isExecuted l = (case l of Inr (Some parsed) \<Rightarrow> log_name parsed = ''Executed'' | _ \<Rightarrow> False)"

definition executedOutcome :: "log list \<Rightarrow> bool \<times> string" where
  "executedOutcome logs =
     (case find isExecuted logs of
        Some (Inr (Some parsed)) \<Rightarrow> (log_success parsed, log_result parsed)
      | _ \<Rightarrow> (True, ''0x''))"

definition execute ::
  "ForwarderService \<Rightarrow> chain \<Rightarrow> ForwardRequest \<Rightarrow> string \<Rightarrow> event list
     \<Rightarrow> (error + ExecuteResult) \<times> event list" where
  "execute fs ch request signature tr =
     (let signer = runner (forwarderContract fs);
          call = Execute request signature;
          estimate = estimateGas ch tr signer call;
          tr1 = tr @ [GasEstimated signer call estimate]
      in case estimate of
           Inl e \<Rightarrow> (Inl e, tr1)
         | Inr gasEstimate \<Rightarrow>
             (let gasLimit = Some (bigint_div (gasEstimate * 120) 100);
                  tx = sendTransaction ch tr1 signer call gasLimit;
                  tr2 = tr1 @ [TxSent signer call gasLimit tx]
              in case tx of
                   Inl e \<Rightarrow> (Inl e, tr2)
                 | Inr h \<Rightarrow>
                     (let waited = waitReceipt ch tr2 h;
                          tr3 = tr2 @ [ReceiptAwaited h waited]
                      in case waited of
                           Inl e \<Rightarrow> (Inl e, tr3)
                         | Inr receipt \<Rightarrow>
                             (case executedOutcome (receipt_logs receipt) of
                                (ok, res) \<Rightarrow>
                                  (Inr \<lparr>txHash = receipt_hash receipt, success = ok, result = res\<rparr>,
                                   tr3)))))"

subsection \<open>payment.service.ts\<close>

text \<open>
  \<^verbatim>\<open>parsePaymentHeader\<close> decodes base64 and JSON and returns \<^verbatim>\<open>null\<close> when either fails.
  The header of a request is therefore one of: absent (or empty, which \<^verbatim>\<open>!paymentHeader\<close>
  treats alike), present but not decodable, or the payment it decodes to.
\<close>

datatype PaymentHeader = NoHeader | Undecodable | Decoded X402Payment

definition parsePaymentHeader :: "PaymentHeader \<Rightarrow> X402Payment option" where
  "parsePaymentHeader header = (case header of Decoded payment \<Rightarrow> Some payment | _ \<Rightarrow> None)"

record Verification =
  valid :: bool
  reason :: "string option"

definition verifyPayment ::
  "Env \<Rightarrow> PaymentService \<Rightarrow> chain \<Rightarrow> X402Payment \<Rightarrow> int \<Rightarrow> event list
     \<Rightarrow> Verification \<times> event list" where
  "verifyPayment env ps ch payment expectedAmount tr =
     (let auth = authorization (payload payment) in
      if toLowerCase (auth_to auth) \<noteq> toLowerCase (RECEIVING_WALLET env)
      then (\<lparr>valid = False, reason = Some ''Wrong recipient address''\<rparr>, tr)
      else let paymentAmount = auth_value auth in
      if paymentAmount < expectedAmount
      then (\<lparr>valid = False,
             reason = Some (''Insufficient amount: got '' @ showInt (auth_value auth)
                            @ '', need '' @ showInt expectedAmount)\<rparr>, tr)
      else let now = dateNow ch tr div 1000 in
      if now \<le> validAfter auth
      then (\<lparr>valid = False, reason = Some ''Authorization not yet valid''\<rparr>, tr)
      else if now \<ge> validBefore auth
      then (\<lparr>valid = False, reason = Some ''Authorization expired''\<rparr>, tr)
      else
        let used = authorizationState ch tr (auth_from auth) (auth_nonce auth);
            tr1 = tr @ [AuthorizationStateRead (auth_from auth) (auth_nonce auth) used]
                     @ (case used of Inl e \<Rightarrow> [Logged ''Failed to check nonce state''] | Inr u \<Rightarrow> [])
        in if used = Inr True
           then (\<lparr>valid = False, reason = Some ''Authorization nonce already used''\<rparr>, tr1)
           else
             let balance = balanceOf ch tr1 (auth_from auth);
                 tr2 = tr1 @ [BalanceOfRead (auth_from auth) balance]
                          @ (case balance of Inl e \<Rightarrow> [Logged ''Failed to check payer balance'']
                             | Inr b \<Rightarrow> [])
             in case balance of
                  Inr b \<Rightarrow>
                    if b < paymentAmount
                    then (\<lparr>valid = False,
                           reason = Some (''Payer has insufficient USDC: '' @ showInt b
                                          @ '' < '' @ showInt paymentAmount)\<rparr>, tr2)
                    else (\<lparr>valid = True, reason = None\<rparr>, tr2)
                | Inl e \<Rightarrow> (\<lparr>valid = True, reason = None\<rparr>, tr2))"

text \<open>
  \<^verbatim>\<open>executePayment\<close>.  \<open>r\<close> and \<open>s\<close> are the two slices of the signature; \<open>v\<close> is kept as
  the two hex digits that \<^verbatim>\<open>parseInt(sig.slice(130, 132), 16)\<close> reads.
\<close>

definition executePayment ::
  "PaymentService \<Rightarrow> chain \<Rightarrow> X402Payment \<Rightarrow> event list \<Rightarrow> (error + string) \<times> event list" where
  "executePayment ps ch payment tr =
     (let auth = authorization (payload payment);
          sig = payload_signature (payload payment);
          r = ''0x'' @ slice 2 66 sig;
          s = ''0x'' @ slice 66 130 sig;
          v = slice 130 132 sig;
          signer = runner (usdcContract ps);
          call = TransferWithAuthorization auth v r s;
          tx = sendTransaction ch tr signer call None;
          tr1 = tr @ [TxSent signer call None tx]
      in case tx of
           Inl e \<Rightarrow> (Inl e, tr1 @ [Logged ''Payment execution failed''])
         | Inr h \<Rightarrow>
             (let waited = waitReceipt ch tr1 h;
                  tr2 = tr1 @ [ReceiptAwaited h waited]
              in case waited of
                   Inl e \<Rightarrow> (Inl e, tr2 @ [Logged ''Payment execution failed''])
                 | Inr receipt \<Rightarrow>
                     if receipt_status receipt \<noteq> Some 1
                     then (Inl (Error ''Payment transaction failed''),
                           tr2 @ [Logged ''Payment execution failed''])
                     else (Inr (receipt_hash receipt), tr2)))"


section \<open>The server\<close>

text \<open>
  The module singletons.  \<^verbatim>\<open>index.ts\<close> calls \<^verbatim>\<open>relayerPool.initialize()\<close> at start-up, so
  the pool is part of the state every handler runs in; a handler returns the state it
  leaves behind.
\<close>

record Server =
  environment :: Env
  walletService :: WalletService
  forwarderService :: ForwarderService
  paymentService :: PaymentService
  pricingService :: PricingService
  relayerPool :: RelayerPoolService

definition startServer :: "Env \<Rightarrow> rat \<Rightarrow> RelayerPoolService \<Rightarrow> Server" where
  "startServer env cro pool =
     (let ws = newWalletService env
      in \<lparr>environment = env, walletService = ws,
          forwarderService = newForwarderService env ws,
          paymentService = newPaymentService env ws,
          pricingService = \<lparr>pricingCroUsdPrice = cro\<rparr>,
          relayerPool = pool\<rparr>)"

section \<open>Meta-transaction controllers (meta.controller.ts)\<close>

text \<open>
  A request body that passed \<^verbatim>\<open>metaRelaySchema\<close> (\<open>None\<close> when \<^verbatim>\<open>safeParse\<close> fails), with the
  priority defaulted to \<^verbatim>\<open>"normal"\<close> by the schema.
\<close>

record MetaRelayBody =
  body_request :: ForwardRequest
  body_signature :: string
  body_priority :: Priority

record BatchRelayBody =
  batch_requests :: "(ForwardRequest \<times> string) list"
  batch_priority :: Priority

record PaymentRequirement =
  x402_network :: int
  asset :: string
  payTo :: string
  maxAmountRequired :: int

text \<open>One entry of the batch response: \<^verbatim>\<open>{success, txHash, to}\<close> or \<^verbatim>\<open>{success: false, error, to}\<close>.\<close>

datatype ItemResult =
    ItemExecuted bool string string
  | ItemFailed string string

fun itemSuccess :: "ItemResult \<Rightarrow> bool" where
  "itemSuccess (ItemExecuted ok h to) = ok"
| "itemSuccess (ItemFailed msg to) = False"

fun itemTo :: "ItemResult \<Rightarrow> string" where
  "itemTo (ItemExecuted ok h to) = to"
| "itemTo (ItemFailed msg to) = to"

record BatchResponse =
  batch_success :: bool
  batch_successCount :: nat
  batch_totalCount :: nat
  batch_paymentTxHash :: string
  batch_results :: "ItemResult list"
  batch_response_priority :: Priority

datatype body =
    InvalidRequest
  | ErrorMessage string "string option"
  | BatchInvalidSignature nat
  | PaymentRequired PaymentRequirement PriceQuote
  | BatchPaymentRequired PaymentRequirement nat int int PriceQuote
  | Relayed bool string string string Priority
  | BatchRelayed BatchResponse

text \<open>
  A handler either answers with a status and a JSON body, or hands an exception to
  \<^verbatim>\<open>next(error)\<close>, the error middleware.
\<close>

datatype response = Json int body | NextError error

definition paymentRequirement :: "Env \<Rightarrow> int \<Rightarrow> PaymentRequirement" where
  "paymentRequirement env amount =
     \<lparr>x402_network = CHAIN_ID env, asset = USDC_ADDRESS env, payTo = RECEIVING_WALLET env,
      maxAmountRequired = amount\<rparr>"

definition metaRelayController ::
  "rounding \<Rightarrow> Server \<Rightarrow> chain \<Rightarrow> MetaRelayBody option \<Rightarrow> PaymentHeader \<Rightarrow> event list
     \<Rightarrow> response \<times> Server \<times> event list" where
  "metaRelayController rd server ch parsed paymentHeader tr =
     (case parsed of
        None \<Rightarrow> (Json 400 InvalidRequest, server, tr)
      | Some data \<Rightarrow>
     (let request = body_request data; signature = body_signature data;
          priority = body_priority data
      in
     (case verify (forwarderService server) ch request signature tr of (isValid, tr1) \<Rightarrow>
      if \<not> isValid
      then (Json 400 (ErrorMessage ''INVALID_SIGNATURE''
                       (Some ''Meta-transaction signature verification failed'')), server, tr1)
      else
     (case calculatePrice rd (environment server) (pricingService server) ch (req_gas request)
             priority tr1 of
        (Inl e, tr2) \<Rightarrow> (NextError e, server, tr2 @ [Logged ''Meta-relay error''])
      | (Inr quote, tr2) \<Rightarrow>
      if paymentHeader = NoHeader
      then (Json 402 (PaymentRequired
                       (paymentRequirement (environment server) (finalPriceRaw quote)) quote),
            server, tr2)
      else
     (case parsePaymentHeader paymentHeader of
        None \<Rightarrow> (Json 400 (ErrorMessage ''INVALID_PAYMENT''
                           (Some ''Could not parse x402 payment header'')), server, tr2)
      | Some payment \<Rightarrow>
     (case verifyPayment (environment server) (paymentService server) ch payment
             (finalPriceRaw quote) tr2 of (verification, tr3) \<Rightarrow>
      if \<not> valid verification
      then (Json 402 (ErrorMessage ''PAYMENT_INVALID'' (reason verification)), server, tr3)
      else
     (case executePayment (paymentService server) ch payment tr3 of
        (Inl e, tr4) \<Rightarrow>
          (Json 402 (ErrorMessage ''PAYMENT_FAILED'' (Some ''Failed to execute payment transfer'')),
           server, tr4)
      | (Inr paymentTxHash, tr4) \<Rightarrow>
     (case execute (forwarderService server) ch request signature tr4 of
        (Inl e, tr5) \<Rightarrow> (NextError e, server, tr5 @ [Logged ''Meta-relay error''])
      | (Inr res, tr5) \<Rightarrow>
          (Json 200 (Relayed (success res) (txHash res) paymentTxHash (result res) priority),
           server, tr5)))))))))"

text \<open>
  The first loop of \<^verbatim>\<open>metaBatchController\<close>: verify every signature, stop at the first
  failure and report its index \<open>i\<close>.
\<close>

fun verifyAll ::
  "ForwarderService \<Rightarrow> chain \<Rightarrow> nat \<Rightarrow> (ForwardRequest \<times> string) list \<Rightarrow> event list
     \<Rightarrow> nat option \<times> event list" where
  "verifyAll fs ch i [] tr = (None, tr)"
| "verifyAll fs ch i ((request, signature) # rest) tr =
     (case verify fs ch request signature tr of (isValid, tr') \<Rightarrow>
        if \<not> isValid then (Some i, tr') else verifyAll fs ch (i + 1) rest tr')"

text \<open>
  The second loop: execute each request in turn and push one entry onto \<^verbatim>\<open>results\<close>; an
  exception of \<^verbatim>\<open>forwarderService.execute\<close> is caught per request.
\<close>

fun executeAll ::
  "ForwarderService \<Rightarrow> chain \<Rightarrow> (ForwardRequest \<times> string) list \<Rightarrow> ItemResult list \<Rightarrow> event list
     \<Rightarrow> ItemResult list \<times> event list" where
  "executeAll fs ch [] results tr = (results, tr)"
| "executeAll fs ch ((request, signature) # rest) results tr =
     (case execute fs ch request signature tr of
        (Inr res, tr') \<Rightarrow>
          executeAll fs ch rest
            (results @ [ItemExecuted (success res) (txHash res) (req_to request)]) tr'
      | (Inl (Error msg), tr') \<Rightarrow>
          executeAll fs ch rest (results @ [ItemFailed msg (req_to request)]) tr')"

definition metaBatchController ::
  "rounding \<Rightarrow> Server \<Rightarrow> chain \<Rightarrow> BatchRelayBody option \<Rightarrow> PaymentHeader \<Rightarrow> event list
     \<Rightarrow> response \<times> Server \<times> event list" where
  "metaBatchController rd server ch parsed paymentHeader tr =
     (case parsed of
        None \<Rightarrow> (Json 400 InvalidRequest, server, tr)
      | Some data \<Rightarrow>
     (let requests = batch_requests data; priority = batch_priority data
      in if length requests < 1 \<or> 10 < length requests
      then (Json 400 InvalidRequest, server, tr)
      else
     (case verifyAll (forwarderService server) ch 0 requests tr of
        (Some i, tr1) \<Rightarrow> (Json 400 (BatchInvalidSignature i), server, tr1)
      | (None, tr1) \<Rightarrow>
     (let totalGas = foldl (\<lambda>sum r. sum + req_gas (fst r)) 0 requests
      in
     (case calculatePrice rd (environment server) (pricingService server) ch totalGas
             priority tr1 of
        (Inl e, tr2) \<Rightarrow> (NextError e, server, tr2 @ [Logged ''Batch relay error''])
      | (Inr quote, tr2) \<Rightarrow>
     (let discountedPrice = bigint_div (finalPriceRaw quote * 90) 100;
          discountedPriceUSDC =
            toFixed6 (fdiv rd (Number_of_bigint rd discountedPrice) (rd 1000000))
      in if paymentHeader = NoHeader
      then (Json 402 (BatchPaymentRequired
                       (paymentRequirement (environment server) discountedPrice)
                       (length requests) totalGas discountedPriceUSDC quote),
            server, tr2)
      else
     (case parsePaymentHeader paymentHeader of
        None \<Rightarrow> (Json 400 (ErrorMessage ''INVALID_PAYMENT''
                           (Some ''Could not parse x402 payment header'')), server, tr2)
      | Some payment \<Rightarrow>
     (case verifyPayment (environment server) (paymentService server) ch payment
             discountedPrice tr2 of (verification, tr3) \<Rightarrow>
      if \<not> valid verification
      then (Json 402 (ErrorMessage ''PAYMENT_INVALID'' (reason verification)), server, tr3)
      else
     (case executePayment (paymentService server) ch payment tr3 of
        (Inl e, tr4) \<Rightarrow>
          (Json 402 (ErrorMessage ''PAYMENT_FAILED'' (Some ''Failed to execute payment transfer'')),
           server, tr4)
      | (Inr paymentTxHash, tr4) \<Rightarrow>
     (case executeAll (forwarderService server) ch requests [] tr4 of (results, tr5) \<Rightarrow>
     (let successCount = length (filter itemSuccess results)
      in (Json 200 (BatchRelayed
            \<lparr>batch_success = (successCount = length results),
             batch_successCount = successCount,
             batch_totalCount = length results,
             batch_paymentTxHash = paymentTxHash,
             batch_results = results,
             batch_response_priority = priority\<rparr>),
          server, tr5))))))))))))"

section \<open>The forwarder service that draws from the pool\<close>

text \<open>
  The sources hold a second \<^verbatim>\<open>ForwarderService\<close>, with the same imports and the same
  \<^verbatim>\<open>verify\<close>, whose \<^verbatim>\<open>execute\<close> begins with \<^verbatim>\<open>relayerPool.getRelayer()\<close>, builds the forwarder
  contract on the wallet of that relayer, and ends with \<^verbatim>\<open>relayerPool.markComplete\<close> on it,
  on return and on every exception after the relayer is drawn.  Its result carries the
  address of the relayer.
\<close>

record PooledExecuteResult = ExecuteResult +
  relayer :: string











section \<open>Health (wallet.service.ts, health.controller.ts)\<close>




text \<open>The counters of \<^verbatim>\<open>transactionService.getStats()\<close>, read from memory.\<close>

record TxStats =
  totalRelayed :: nat
  pending :: nat
  confirmed :: nat
  failed :: nat




section \<open>Comparing prices\<close>

text \<open>
  \<open>y\<close> dominates \<open>x\<close> when both have the same sign and \<open>y\<close> is at least as far from zero.
\<close>

definition dominates :: "'a::linordered_idom \<Rightarrow> 'a \<Rightarrow> bool" where
  "dominates x y \<longleftrightarrow> (0 \<le> x \<and> x \<le> y) \<or> (y \<le> x \<and> x \<le> 0)"

text \<open>
  The properties of a rounding that the comparison of prices rests on: it is monotone and
  represents 0 and 1 exactly (as round-to-nearest does in every binary format).
\<close>

definition faithful :: "rounding \<Rightarrow> bool" where
  "faithful rd \<longleftrightarrow> (\<forall>x y. x \<le> y \<longrightarrow> rd x \<le> rd y) \<and> rd 0 = 0 \<and> rd 1 = 1"


text \<open>
  The exponent of the unit in the last place of the double nearest to \<open>x > 0\<close>, as
  \<open>binary64\<close> computes it.
\<close>

definition expo :: "rat \<Rightarrow> int" where
  "expo x = max (ilog2 x - 52) (- 1074)"


section \<open>Reading a trace\<close>

text \<open>
  The events by which \<^verbatim>\<open>forwarderService.execute\<close> shows in a trace: its gas estimate,
  which is the first thing it does, and the transaction it sends.
\<close>

fun isExecuteEvent :: "event \<Rightarrow> bool" where
  "isExecuteEvent (GasEstimated signer (Execute request signature) outcome) = True"
| "isExecuteEvent (TxSent signer (Execute request signature) gasLimit outcome) = True"
| "isExecuteEvent ev = False"

text \<open>
  Two consecutive events are a confirmed settlement when the first is a
  \<^verbatim>\<open>transferWithAuthorization\<close> transaction that was sent and got a hash, and the second is
  the awaited receipt of that hash, with status 1.
\<close>

fun settledBy :: "event \<Rightarrow> event \<Rightarrow> bool" where
  "settledBy (TxSent signer (TransferWithAuthorization auth v r s) gasLimit (Inr h))
             (ReceiptAwaited h' (Inr receipt)) = (h = h' \<and> receipt_status receipt = Some 1)"
| "settledBy ev ev' = False"

text \<open>The wallet that signed an event, for the events that are signed transactions.\<close>

fun signerOf :: "event \<Rightarrow> string option" where
  "signerOf (TxSent signer call gasLimit outcome) = Some signer"
| "signerOf (GasEstimated signer call outcome) = Some signer"
| "signerOf ev = None"


text \<open>
  An event is signed by the services when, if it is signed at all, its signer is the
  runner of the stablecoin contract of \<^verbatim>\<open>paymentService\<close> or of the forwarder contract of
  \<^verbatim>\<open>forwarderService\<close>.
\<close>

definition signedByServices :: "Server \<Rightarrow> event \<Rightarrow> bool" where
  "signedByServices server ev \<longleftrightarrow>
     (\<forall>signer. signerOf ev = Some signer \<longrightarrow>
        signer = runner (usdcContract (paymentService server))
        \<or> signer = runner (forwarderContract (forwarderService server)))"

section \<open>The batch loop, one request at a time\<close>

text \<open>
  The entry that the second loop of \<^verbatim>\<open>metaBatchController\<close> pushes for a request, given
  how \<^verbatim>\<open>forwarderService.execute\<close> ended for it.
\<close>

definition itemOf :: "ForwardRequest \<Rightarrow> error + ExecuteResult \<Rightarrow> ItemResult" where
  "itemOf request outcome =
     (case outcome of
        Inr res \<Rightarrow> ItemExecuted (success res) (txHash res) (req_to request)
      | Inl (Error msg) \<Rightarrow> ItemFailed msg (req_to request))"

text \<open>
  \<open>traceAfter fs ch requests tr k\<close> is the trace once the first \<open>k\<close> requests of the list
  have been executed one after the other, starting from \<open>tr\<close>.
\<close>

fun traceAfter ::
  "ForwarderService \<Rightarrow> chain \<Rightarrow> (ForwardRequest \<times> string) list \<Rightarrow> event list \<Rightarrow> nat \<Rightarrow> event list" where
  "traceAfter fs ch requests tr 0 = tr"
| "traceAfter fs ch requests tr (Suc k) =
     snd (execute fs ch (fst (requests ! k)) (snd (requests ! k)) (traceAfter fs ch requests tr k))"


section \<open>The payment checks as the specification lists them\<close>

text \<open>
  The specification of \<^verbatim>\<open>verify(envelope, expectedAmount)\<close>: six checks in order, each with
  the reason it reports; the first failing check returns its reason.  \<open>now\<close> is the clock
  in seconds, \<open>used\<close> the on-chain \<^verbatim>\<open>authorizationState(from, nonce)\<close> and \<open>balance\<close> the
  on-chain stablecoin balance of the payer.
\<close>

definition spec_paymentChecks ::
  "Env \<Rightarrow> X402Authorization \<Rightarrow> int \<Rightarrow> int \<Rightarrow> bool \<Rightarrow> int \<Rightarrow> (bool \<times> string) list" where
  "spec_paymentChecks env auth expectedAmount now used balance =
     [(toLowerCase (auth_to auth) = toLowerCase (RECEIVING_WALLET env),
         ''Wrong recipient address''),
      (auth_value auth \<ge> expectedAmount,
         ''Insufficient amount: got '' @ showInt (auth_value auth) @ '', need ''
           @ showInt expectedAmount),
      (now > validAfter auth, ''Authorization not yet valid''),
      (now < validBefore auth, ''Authorization expired''),
      (\<not> used, ''Authorization nonce already used''),
      (balance \<ge> auth_value auth,
         ''Payer has insufficient USDC: '' @ showInt balance @ '' < '' @ showInt (auth_value auth))]"

definition spec_firstFailing :: "(bool \<times> string) list \<Rightarrow> Verification" where
  "spec_firstFailing checks =
     (case find (\<lambda>c. \<not> fst c) checks of
        None \<Rightarrow> \<lparr>valid = True, reason = None\<rparr>
      | Some c \<Rightarrow> \<lparr>valid = False, reason = Some (snd c)\<rparr>)"


section \<open>The price as the specification computes it\<close>

text \<open>
  The specification's steps 3 and 4, in the arithmetic \<open>rd\<close>: the markup is
  \<open>1 + (configuredMarkupPercent / 100) \<times> tier.markupMultiplier\<close>, and the price is the base
  cost times the markup, raised to \<open>max (configuredMinUsd \<times> tier.markupMultiplier) 0.005\<close> and
  then lowered to the maximum price.
\<close>

definition spec_markup :: "rounding \<Rightarrow> Env \<Rightarrow> Priority \<Rightarrow> rat" where
  "spec_markup rd env priority =
     fadd rd 1 (fmul rd (fdiv rd (MARKUP_PERCENTAGE env) 100)
                        (markupMultiplier (PRIORITY_CONFIGS rd priority)))"

definition spec_priceUsd :: "rounding \<Rightarrow> Env \<Rightarrow> Priority \<Rightarrow> rat \<Rightarrow> rat" where
  "spec_priceUsd rd env priority baseCostUsd =
     min (max (fmul rd baseCostUsd (spec_markup rd env priority))
              (max (fmul rd (MIN_PRICE_USDC env) (markupMultiplier (PRIORITY_CONFIGS rd priority)))
                   (rd (5 / 1000))))
         (MAX_PRICE_USDC rd)"


section \<open>Scenarios\<close>

text \<open>
  A pool of two relayers after four calls of its own methods: relayer 1 is used at time
  100 and completes, then relayer 0 is used at time 200 and completes.
\<close>

definition twoKeys :: "(string \<times> string \<times> int) list" where
  "twoKeys = [(''0xkey0'', ''0xRelayer0'', 0), (''0xkey1'', ''0xRelayer1'', 0)]"

definition tiedPool :: RelayerPoolService where
  "tiedPool =
     markComplete (snd (getAndIncrementNonce 200
       (markComplete (snd (getAndIncrementNonce 100 (initializedPool twoKeys) 1)) 1) 0)) 0"

text \<open>A pool of three relayers with pending counts 2, 1 and 1.\<close>

definition busyPool :: RelayerPoolService where
  "busyPool =
     \<lparr>relayers =
        [\<lparr>wallet = ''0xkey0'', address = ''0xRelayer0'', pendingTxCount = 2, lastUsed = 10, nonce = 7\<rparr>,
         \<lparr>wallet = ''0xkey1'', address = ''0xRelayer1'', pendingTxCount = 1, lastUsed = 300, nonce = 4\<rparr>,
         \<lparr>wallet = ''0xkey2'', address = ''0xRelayer2'', pendingTxCount = 1, lastUsed = 50, nonce = 9\<rparr>],
      currentIndex = 0, initialized = True\<rparr>"
text \<open>
  A token ledger, and the chain as seen through an RPC endpoint that is either reachable
  or not: when reachable, token reads answer from the ledger and transactions are mined
  (a receipt with status 1 and no logs); when not, every call throws.
\<close>

record Ledger =
  usedAuthorizations :: "(string \<times> string) list"
  tokenBalances :: "(string \<times> int) list"

definition tokenBalance :: "Ledger \<Rightarrow> string \<Rightarrow> int" where
  "tokenBalance ledger a = (case map_of (tokenBalances ledger) a of None \<Rightarrow> 0 | Some b \<Rightarrow> b)"

definition throughRpc :: "bool \<Rightarrow> 'a \<Rightarrow> error + 'a" where
  "throughRpc reachable answer = (if reachable then Inr answer else Inl (Error ''network error''))"

definition txHashOf :: "contractCall \<Rightarrow> string" where
  "txHashOf call =
     (case call of
        TransferWithAuthorization auth v r s \<Rightarrow> ''0xpayment''
      | Execute request signature \<Rightarrow> ''0xexecute'' @ showInt (req_nonce request))"

definition ledgerChain :: "Ledger \<Rightarrow> bool \<Rightarrow> int \<Rightarrow> chain" where
  "ledgerChain ledger reachable clock =
     \<lparr>dateNow = (\<lambda>tr. clock),
      getFeeData = (\<lambda>tr. throughRpc reachable (Some 5000000000000)),
      getBalance = (\<lambda>tr a. throughRpc reachable 25000000000000000000),
      forwarderVerify = (\<lambda>tr request signature. throughRpc reachable True),
      authorizationState = (\<lambda>tr a n. throughRpc reachable ((a, n) \<in> set (usedAuthorizations ledger))),
      balanceOf = (\<lambda>tr a. throughRpc reachable (tokenBalance ledger a)),
      estimateGas = (\<lambda>tr signer call. throughRpc reachable 100000),
      sendTransaction = (\<lambda>tr signer call gasLimit. throughRpc reachable (txHashOf call)),
      waitReceipt = (\<lambda>tr h. throughRpc reachable
                      \<lparr>receipt_status = Some 1, receipt_hash = h, receipt_logs = []\<rparr>)\<rparr>"

definition demoEnv :: Env where
  "demoEnv =
     \<lparr>CHAIN_ID = 338, RELAYER_PRIVATE_KEY = ''0xprimarykey'', USDC_ADDRESS = ''0xUSDC'',
      FORWARDER_ADDRESS = ''0xForwarder'',
      RECEIVING_WALLET = ''0xF40B9a42cD26166051455c23508C2EbA997da7e2'',
      MARKUP_PERCENTAGE = 20, MIN_PRICE_USDC = 1 / 100\<rparr>"

definition demoServer :: Server where
  "demoServer = startServer demoEnv (3 / 20) busyPool"


text \<open>
  A payment of 10000 base units from a payer, addressed to the receiving wallet in lower
  case, valid from time 0 to 9999999999.
\<close>

definition payer :: string where
  "payer = ''0x1234567890123456789012345678901234567890''"

definition demoPayment :: X402Payment where
  "demoPayment =
     \<lparr>version = 1, scheme = ''exact'', network = ''eip155:338'',
      payload = \<lparr>payload_signature = ''0x'' @ replicate 130 (CHR ''a''),
                 authorization =
                   \<lparr>auth_from = payer,
                    auth_to = ''0xf40b9a42cd26166051455c23508c2eba997da7e2'',
                    auth_value = 10000, validAfter = 0, validBefore = 9999999999,
                    auth_nonce = ''0xbb''\<rparr>\<rparr>\<rparr>"

text \<open>A ledger on which the payer holds 500000 base units and has used no authorization.\<close>

definition fundedLedger :: Ledger where
  "fundedLedger = \<lparr>usedAuthorizations = [], tokenBalances = [(payer, 500000)]\<rparr>"

text \<open>
  A ledger on which the authorization of \<open>demoPayment\<close> is already used and the payer
  holds nothing.
\<close>

definition spentLedger :: Ledger where
  "spentLedger = \<lparr>usedAuthorizations = [(payer, ''0xbb'')], tokenBalances = [(payer, 0)]\<rparr>"


text \<open>
  A chain on which every read answers but every receipt comes back with status 0, and a
  body asking to relay one request at the normal priority.
\<close>

definition revertingChain :: chain where
  "revertingChain =
     (ledgerChain fundedLedger True 1700000000000)
       \<lparr>waitReceipt := (\<lambda>tr h. Inr \<lparr>receipt_status = Some 0, receipt_hash = h, receipt_logs = []\<rparr>)\<rparr>"

definition demoRequest :: ForwardRequest where
  "demoRequest =
     \<lparr>req_from = payer, req_to = ''0xTarget'', req_value = 0, req_gas = 100000, req_nonce = 0,
      req_deadline = 1700000600, req_data = ''0xabcdef''\<rparr>"

definition demoBody :: MetaRelayBody where
  "demoBody = \<lparr>body_request = demoRequest, body_signature = ''0xsigned'', body_priority = Normal\<rparr>"

definition paidPayment :: X402Payment where
  "paidPayment = demoPayment\<lparr>payload := (payload demoPayment)\<lparr>authorization :=
       (authorization (payload demoPayment))\<lparr>auth_value := 90000\<rparr>\<rparr>\<rparr>"

text \<open>
  The traces of two runs of the single relay with \<open>demoBody\<close> and \<open>paidPayment\<close>: the four
  reads up to the verification of the payment, the settlement with a given receipt
  status, and the three events of \<^verbatim>\<open>forwarderService.execute\<close>.
\<close>

definition admissionTrace :: "event list" where
  "admissionTrace =
     [VerifyRead demoRequest ''0xsigned'' (Inr True),
      FeeDataRead (Inr (Some 5000000000000)),
      AuthorizationStateRead payer ''0xbb'' (Inr False),
      BalanceOfRead payer (Inr 500000)]"

definition settlementEvents :: "int \<Rightarrow> event list" where
  "settlementEvents status =
     [TxSent ''0xprimarykey''
        (TransferWithAuthorization (authorization (payload paidPayment)) ''aa''
           (''0x'' @ replicate 64 (CHR ''a'')) (''0x'' @ replicate 64 (CHR ''a'')))
        None (Inr ''0xpayment''),
      ReceiptAwaited ''0xpayment''
        (Inr \<lparr>receipt_status = Some status, receipt_hash = ''0xpayment'', receipt_logs = []\<rparr>)]"

definition executionEvents :: "ForwardRequest \<Rightarrow> string \<Rightarrow> event list" where
  "executionEvents request signature =
     [GasEstimated ''0xprimarykey'' (Execute request signature) (Inr 100000),
      TxSent ''0xprimarykey'' (Execute request signature) (Some 120000)
        (Inr (txHashOf (Execute request signature))),
      ReceiptAwaited (txHashOf (Execute request signature))
        (Inr \<lparr>receipt_status = Some 1, receipt_hash = txHashOf (Execute request signature),
              receipt_logs = []\<rparr>)]"


text \<open>
  A batch of three requests of 100000 gas each, a payment of the discounted batch price,
  and a chain on which the gas estimate of the request with nonce 1 reverts.
\<close>

definition batchBody :: BatchRelayBody where
  "batchBody =
     \<lparr>batch_requests =
        [(demoRequest, ''0xsigned0''),
         (demoRequest\<lparr>req_to := ''0xOther'', req_nonce := 1\<rparr>, ''0xsigned1''),
         (demoRequest\<lparr>req_nonce := 2\<rparr>, ''0xsigned2'')],
      batch_priority = Normal\<rparr>"

definition batchPayment :: X402Payment where
  "batchPayment = demoPayment\<lparr>payload := (payload demoPayment)\<lparr>authorization :=
       (authorization (payload demoPayment))\<lparr>auth_value := 243000\<rparr>\<rparr>\<rparr>"

definition flakyChain :: chain where
  "flakyChain =
     (ledgerChain fundedLedger True 1700000000000)
       \<lparr>estimateGas := (\<lambda>tr signer call.
           case call of
             Execute request signature \<Rightarrow>
               if req_nonce request = 1 then Inl (Error ''execution reverted'') else Inr 100000
           | TransferWithAuthorization auth v r s \<Rightarrow> Inr 100000)\<rparr>"

text \<open>
  The configuration and the server in double precision: a markup of 20 percent, a minimum
  price of 0.01 and a spot price of 0.15 dollars, each as the double nearest to it.
\<close>

definition doubleEnv :: Env where
  "doubleEnv = demoEnv\<lparr>MARKUP_PERCENTAGE := binary64 20, MIN_PRICE_USDC := binary64 (1 / 100)\<rparr>"

definition doubleServer :: Server where
  "doubleServer = startServer doubleEnv (binary64 (3 / 20)) busyPool"

text \<open>The same configuration with a markup of 10 percent.\<close>

definition tenPercentEnv :: Env where
  "tenPercentEnv = doubleEnv\<lparr>MARKUP_PERCENTAGE := binary64 10\<rparr>"

text \<open>
  Chains for the health check: one on which the fee data cannot be read while the primary
  wallet holds 25 units, and one on which the primary wallet holds 0.5 units.
\<close>

definition feeDownChain :: chain where
  "feeDownChain =
     (ledgerChain fundedLedger True 1700000000000)
       \<lparr>getFeeData := (\<lambda>tr. Inl (Error ''network error''))\<rparr>"





section \<open>Properties of the relayer pool\<close>

lemma leastBusy_cases:
  "leastBusy best rs = best \<and> (\<forall>r \<in> set rs. pendingTxCount best \<le> pendingTxCount r)
   \<or> (\<exists>i < length rs. leastBusy best rs = rs ! i
        \<and> pendingTxCount (rs ! i) < pendingTxCount best
        \<and> (\<forall>j < i. pendingTxCount (rs ! i) < pendingTxCount (rs ! j))
        \<and> (\<forall>r \<in> set rs. pendingTxCount (rs ! i) \<le> pendingTxCount r))"
proof (induction rs arbitrary: best)
  case Nil
  show ?case by simp
next
  case (Cons a rs)
  define b where "b = (if pendingTxCount a < pendingTxCount best then a else best)"
  have step: "leastBusy best (a # rs) = leastBusy b rs"
    by (simp add: b_def)
  have b_le: "pendingTxCount b \<le> pendingTxCount a" "pendingTxCount b \<le> pendingTxCount best"
    by (simp_all add: b_def)
  from Cons.IH [of b] show ?case
  proof (elim disjE exE conjE)
    assume eq: "leastBusy b rs = b"
      and le: "\<forall>r \<in> set rs. pendingTxCount b \<le> pendingTxCount r"
    show ?thesis
    proof (cases "pendingTxCount a < pendingTxCount best")
      case True
      then have "b = a" by (simp add: b_def)
      with True eq le step have "leastBusy best (a # rs) = (a # rs) ! 0
          \<and> pendingTxCount ((a # rs) ! 0) < pendingTxCount best
          \<and> (\<forall>r \<in> set (a # rs). pendingTxCount ((a # rs) ! 0) \<le> pendingTxCount r)"
        by simp
      then show ?thesis by (intro disjI2 exI [of _ 0]) (simp del: leastBusy.simps)
    next
      case False
      then have "b = best" by (simp add: b_def)
      with False eq le step show ?thesis by (intro disjI1) (auto simp del: leastBusy.simps)
    qed
  next
    fix i
    assume i: "i < length rs"
      and eq: "leastBusy b rs = rs ! i"
      and lt: "pendingTxCount (rs ! i) < pendingTxCount b"
      and first: "\<forall>j < i. pendingTxCount (rs ! i) < pendingTxCount (rs ! j)"
      and least: "\<forall>r \<in> set rs. pendingTxCount (rs ! i) \<le> pendingTxCount r"
    have lt_a: "pendingTxCount (rs ! i) < pendingTxCount a"
      and lt_best: "pendingTxCount (rs ! i) < pendingTxCount best"
      using lt b_le by simp_all
    have "\<forall>j < Suc i. pendingTxCount ((a # rs) ! Suc i) < pendingTxCount ((a # rs) ! j)"
      using first lt_a by (auto simp: less_Suc_eq_0_disj)
    moreover have "\<forall>r \<in> set (a # rs). pendingTxCount ((a # rs) ! Suc i) \<le> pendingTxCount r"
      using least lt_a by auto
    ultimately show ?thesis
      using i eq lt_best step by (intro disjI2 exI [of _ "Suc i"]) (simp del: leastBusy.simps)
  qed
qed

text \<open>
  C6 (as the code has it).  When \<^verbatim>\<open>getRelayer\<close> returns, the relayer it returns is an
  element of the pool whose \<open>pendingTxCount\<close> is the smallest of the pool, and among the
  relayers that tie on that smallest count it is the first in the pool's list order: every
  relayer before it has a strictly larger count.  \<open>lastUsed\<close> plays no part.
\<close>

theorem getRelayer_least_busy_first:
  assumes "getRelayer pool = Inr r"
  shows "\<exists>i < length (relayers pool). r = relayers pool ! i
           \<and> (\<forall>r' \<in> set (relayers pool). pendingTxCount r \<le> pendingTxCount r')
           \<and> (\<forall>j < i. pendingTxCount r < pendingTxCount (relayers pool ! j))"
proof -
  let ?rs = "relayers pool"
  from assms have ne: "?rs \<noteq> []" and r: "r = leastBusy (?rs ! 0) ?rs"
    by (auto simp: getRelayer_def split: if_splits)
  from ne have head: "?rs ! 0 \<in> set ?rs" by simp
  from leastBusy_cases [of "?rs ! 0" ?rs] show ?thesis
  proof (elim disjE exE conjE)
    assume "leastBusy (?rs ! 0) ?rs = ?rs ! 0"
      and "\<forall>r \<in> set ?rs. pendingTxCount (?rs ! 0) \<le> pendingTxCount r"
    with ne r show ?thesis by (intro exI [of _ 0]) simp
  next
    fix i
    assume "i < length ?rs" "leastBusy (?rs ! 0) ?rs = ?rs ! i"
      "\<forall>j < i. pendingTxCount (?rs ! i) < pendingTxCount (?rs ! j)"
      "\<forall>r \<in> set ?rs. pendingTxCount (?rs ! i) \<le> pendingTxCount r"
    with r show ?thesis by (intro exI [of _ i]) simp
  qed
qed


theorem getRelayer_least_busy_first_witness:
  "getRelayer busyPool = Inr (relayers busyPool ! 1)
   \<and> (\<exists>i < length (relayers busyPool). relayers busyPool ! 1 = relayers busyPool ! i
        \<and> (\<forall>r' \<in> set (relayers busyPool).
               pendingTxCount (relayers busyPool ! 1) \<le> pendingTxCount r')
        \<and> (\<forall>j < i. pendingTxCount (relayers busyPool ! 1)
                        < pendingTxCount (relayers busyPool ! j)))"
proof -
  have sel: "getRelayer busyPool = Inr (relayers busyPool ! 1)"
    by (simp add: getRelayer_def busyPool_def)
  from getRelayer_least_busy_first [OF sel] sel show ?thesis by simp
qed

text \<open>
  C6 as stated fails: in \<open>tiedPool\<close> both relayers have no pending transaction, relayer 1
  was used last at time 100 and relayer 0 at time 200, and \<^verbatim>\<open>getRelayer\<close> returns relayer 0,
  the one with the later \<open>lastUsed\<close>.
\<close>

theorem getRelayer_tie_counterexample:
  "relayers tiedPool =
     [\<lparr>wallet = ''0xkey0'', address = ''0xRelayer0'', pendingTxCount = 0, lastUsed = 200, nonce = 1\<rparr>,
      \<lparr>wallet = ''0xkey1'', address = ''0xRelayer1'', pendingTxCount = 0, lastUsed = 100, nonce = 1\<rparr>]
   \<and> getRelayer tiedPool =
       Inr \<lparr>wallet = ''0xkey0'', address = ''0xRelayer0'', pendingTxCount = 0, lastUsed = 200, nonce = 1\<rparr>"
  by (simp add: tiedPool_def twoKeys_def initializedPool_def initialRelayer_def
      getAndIncrementNonce_def markComplete_def getRelayer_def Let_def)

section \<open>Properties of payment verification\<close>

lemma verifyPayment_verdict:
  assumes "auth = authorization (payload payment)"
    and "authorizationState ch tr (auth_from auth) (auth_nonce auth) = Inr used"
    and "balanceOf ch (tr @ [AuthorizationStateRead (auth_from auth) (auth_nonce auth) (Inr used)])
           (auth_from auth) = Inr balance"
  shows "fst (verifyPayment env ps ch payment expectedAmount tr) =
           spec_firstFailing (spec_paymentChecks env auth expectedAmount (dateNow ch tr div 1000)
                                used balance)"
  using assms
  by (cases used)
     (simp_all add: verifyPayment_def spec_firstFailing_def spec_paymentChecks_def Let_def)

lemma verifyPayment_reads:
  assumes "auth = authorization (payload payment)"
    and "authorizationState ch tr (auth_from auth) (auth_nonce auth) = Inr used"
    and "balanceOf ch (tr @ [AuthorizationStateRead (auth_from auth) (auth_nonce auth) (Inr used)])
           (auth_from auth) = Inr balance"
  shows "snd (verifyPayment env ps ch payment expectedAmount tr) =
           tr @ (if list_all fst (take 4 (spec_paymentChecks env auth expectedAmount
                                            (dateNow ch tr div 1000) used balance))
                 then AuthorizationStateRead (auth_from auth) (auth_nonce auth) (Inr used)
                      # (if used then [] else [BalanceOfRead (auth_from auth) (Inr balance)])
                 else [])"
  using assms
  by (cases used) (simp_all add: verifyPayment_def spec_paymentChecks_def Let_def)

lemma verifyPayment_one_below:
  assumes "toLowerCase (auth_to (authorization (payload payment))) = toLowerCase (RECEIVING_WALLET env)"
    and "auth_value (authorization (payload payment)) = expectedAmount - 1"
  shows "\<exists>r. fst (verifyPayment env ps ch payment expectedAmount tr)
               = \<lparr>valid = False, reason = Some r\<rparr>
            \<and> prefix ''Insufficient amount'' r"
  using assms by (simp add: verifyPayment_def Let_def)

text \<open>
  C2 (as the code has it).  Let the two on-chain reads return: \<open>used\<close> for
  \<^verbatim>\<open>authorizationState(from, nonce)\<close> and \<open>balance\<close> for \<^verbatim>\<open>balanceOf(from)\<close>.  Then the verdict
  of \<^verbatim>\<open>verifyPayment\<close> is that of the specification's six checks in its order (recipient,
  amount, not-yet-valid, expired, nonce used, payer balance): valid when all pass, and
  otherwise invalid with the reason of the first failing check.  The later checks are
  skipped: no chain read is made unless the first four checks pass, and the balance is
  read only when the nonce is unused.  In particular, with the right recipient, a value
  one base unit below the expected amount is rejected with a reason that begins with
  ``Insufficient amount''.
\<close>

theorem verifyPayment_first_failing_check:
  assumes "auth = authorization (payload payment)"
    and "authorizationState ch tr (auth_from auth) (auth_nonce auth) = Inr used"
    and "balanceOf ch (tr @ [AuthorizationStateRead (auth_from auth) (auth_nonce auth) (Inr used)])
           (auth_from auth) = Inr balance"
  shows "fst (verifyPayment env ps ch payment expectedAmount tr) =
           spec_firstFailing (spec_paymentChecks env auth expectedAmount (dateNow ch tr div 1000)
                                used balance)
       \<and> snd (verifyPayment env ps ch payment expectedAmount tr) =
           tr @ (if list_all fst (take 4 (spec_paymentChecks env auth expectedAmount
                                            (dateNow ch tr div 1000) used balance))
                 then AuthorizationStateRead (auth_from auth) (auth_nonce auth) (Inr used)
                      # (if used then [] else [BalanceOfRead (auth_from auth) (Inr balance)])
                 else [])
       \<and> (toLowerCase (auth_to auth) = toLowerCase (RECEIVING_WALLET env)
            \<and> auth_value auth = expectedAmount - 1
          \<longrightarrow> (\<exists>r. fst (verifyPayment env ps ch payment expectedAmount tr)
                       = \<lparr>valid = False, reason = Some r\<rparr>
                    \<and> prefix ''Insufficient amount'' r))"
  using verifyPayment_verdict [OF assms] verifyPayment_reads [OF assms]
    verifyPayment_one_below [of payment env expectedAmount ps ch tr] assms(1)
  by blast

theorem verifyPayment_first_failing_check_witness:
  "authorizationState (ledgerChain fundedLedger True 1700000000000) [] payer ''0xbb'' = Inr False
   \<and> balanceOf (ledgerChain fundedLedger True 1700000000000)
        [AuthorizationStateRead payer ''0xbb'' (Inr False)] payer = Inr 500000
   \<and> verifyPayment demoEnv (paymentService demoServer)
        (ledgerChain fundedLedger True 1700000000000) demoPayment 10001 []
      = (\<lparr>valid = False, reason = Some ''Insufficient amount: got 10000, need 10001''\<rparr>, [])
   \<and> prefix ''Insufficient amount'' ''Insufficient amount: got 10000, need 10001''"
proof -
  let ?ch = "ledgerChain fundedLedger True 1700000000000"
  let ?auth = "authorization (payload demoPayment)"
  have from_nonce: "auth_from ?auth = payer" "auth_nonce ?auth = ''0xbb''"
    by (simp_all add: demoPayment_def)
  have used: "authorizationState ?ch [] (auth_from ?auth) (auth_nonce ?auth) = Inr False"
    unfolding from_nonce by code_simp
  have bal: "balanceOf ?ch ([] @ [AuthorizationStateRead (auth_from ?auth) (auth_nonce ?auth) (Inr False)])
               (auth_from ?auth) = Inr 500000"
    unfolding from_nonce by code_simp
  have recipient: "toLowerCase (auth_to ?auth) = toLowerCase (RECEIVING_WALLET demoEnv)"
    by code_simp
  have amount: "auth_value ?auth = 10001 - 1"
    by (simp add: demoPayment_def)
  have checks: "spec_firstFailing (spec_paymentChecks demoEnv ?auth 10001 (dateNow ?ch [] div 1000)
                   False 500000)
                = \<lparr>valid = False, reason = Some ''Insufficient amount: got 10000, need 10001''\<rparr>"
    by code_simp
  have first_four: "\<not> list_all fst (take 4 (spec_paymentChecks demoEnv ?auth 10001
                                               (dateNow ?ch [] div 1000) False 500000))"
    by code_simp
  note inst = verifyPayment_first_failing_check [OF refl used bal,
      of demoEnv "paymentService demoServer" 10001]
  from inst
  have verdict: "fst (verifyPayment demoEnv (paymentService demoServer) ?ch demoPayment 10001 [])
          = \<lparr>valid = False, reason = Some ''Insufficient amount: got 10000, need 10001''\<rparr>"
    and reads: "snd (verifyPayment demoEnv (paymentService demoServer) ?ch demoPayment 10001 []) = []"
    using checks first_four by simp_all
  from inst recipient amount
  obtain r where "fst (verifyPayment demoEnv (paymentService demoServer) ?ch demoPayment 10001 [])
                    = \<lparr>valid = False, reason = Some r\<rparr>"
    and "prefix ''Insufficient amount'' r"
    by blast
  with verdict have "prefix ''Insufficient amount'' ''Insufficient amount: got 10000, need 10001''"
    by simp
  moreover from verdict reads
  have "verifyPayment demoEnv (paymentService demoServer) ?ch demoPayment 10001 []
      = (\<lparr>valid = False, reason = Some ''Insufficient amount: got 10000, need 10001''\<rparr>, [])"
    by (simp add: prod_eq_iff)
  ultimately show ?thesis
    using used bal unfolding from_nonce by simp
qed

text \<open>
  C2 as stated fails.  On \<open>spentLedger\<close> the authorization of \<open>demoPayment\<close> is already used
  and the payer's balance is 0, below the value 10000: the fifth and the sixth check both
  fail on chain.  When the two reads throw, \<^verbatim>\<open>verifyPayment\<close> still answers
  \<^verbatim>\<open>{valid: true}\<close>.
\<close>

theorem verifyPayment_first_failing_check_counterexample:
  "(auth_from (authorization (payload demoPayment)), auth_nonce (authorization (payload demoPayment)))
     \<in> set (usedAuthorizations spentLedger)
   \<and> tokenBalance spentLedger (auth_from (authorization (payload demoPayment)))
       < auth_value (authorization (payload demoPayment))
   \<and> fst (verifyPayment demoEnv (paymentService demoServer)
            (ledgerChain spentLedger False 1700000000000) demoPayment 10000 [])
       = \<lparr>valid = True, reason = None\<rparr>"
  by code_simp

lemma verifyPayment_both_throw:
  assumes "auth = authorization (payload payment)"
    and "list_all fst (take 4 (spec_paymentChecks env auth expectedAmount
                                 (dateNow ch tr div 1000) False 0))"
    and "authorizationState ch tr (auth_from auth) (auth_nonce auth) = Inl e"
    and "balanceOf ch (tr @ [AuthorizationStateRead (auth_from auth) (auth_nonce auth) (Inl e),
                             Logged ''Failed to check nonce state''])
           (auth_from auth) = Inl e'"
  shows "verifyPayment env ps ch payment expectedAmount tr =
           (\<lparr>valid = True, reason = None\<rparr>,
            tr @ [AuthorizationStateRead (auth_from auth) (auth_nonce auth) (Inl e),
                  Logged ''Failed to check nonce state'',
                  BalanceOfRead (auth_from auth) (Inl e'),
                  Logged ''Failed to check payer balance''])"
  using assms by (simp add: verifyPayment_def spec_paymentChecks_def Let_def)

lemma verifyPayment_verdict_lenient:
  assumes "auth = authorization (payload payment)"
    and "authorizationState ch tr (auth_from auth) (auth_nonce auth) = usedRead"
    and "balanceOf ch (tr @ [AuthorizationStateRead (auth_from auth) (auth_nonce auth) usedRead]
                          @ (case usedRead of Inl e \<Rightarrow> [Logged ''Failed to check nonce state'']
                             | Inr u \<Rightarrow> []))
           (auth_from auth) = balanceRead"
  shows "fst (verifyPayment env ps ch payment expectedAmount tr) =
           spec_firstFailing (spec_paymentChecks env auth expectedAmount (dateNow ch tr div 1000)
              (usedRead = Inr True)
              (case balanceRead of Inl e \<Rightarrow> auth_value auth | Inr b \<Rightarrow> b))"
proof (cases usedRead)
  case (Inl e)
  with assms show ?thesis
    by (cases balanceRead)
       (simp_all add: verifyPayment_def spec_firstFailing_def spec_paymentChecks_def Let_def)
next
  case (Inr u)
  with assms show ?thesis
    by (cases balanceRead; cases u)
       (simp_all add: verifyPayment_def spec_firstFailing_def spec_paymentChecks_def Let_def)
qed

text \<open>
  C9.  A read that throws is only logged and its check is skipped: the verdict of
  \<^verbatim>\<open>verifyPayment\<close> is that of the six checks with a throwing \<^verbatim>\<open>authorizationState\<close> read
  counted as ``not used'' and a throwing \<^verbatim>\<open>balanceOf\<close> read counted as a sufficient
  balance.  So when the first four checks pass and both reads throw, the answer is
  \<^verbatim>\<open>{valid: true}\<close>, whatever the chain holds, and the trace shows the two reads, each
  followed by its warning.
\<close>

theorem verifyPayment_skips_failed_reads:
  assumes "auth = authorization (payload payment)"
    and "usedRead = authorizationState ch tr (auth_from auth) (auth_nonce auth)"
    and "tr1 = tr @ [AuthorizationStateRead (auth_from auth) (auth_nonce auth) usedRead]
                  @ (case usedRead of Inl e \<Rightarrow> [Logged ''Failed to check nonce state'']
                     | Inr u \<Rightarrow> [])"
    and "balanceRead = balanceOf ch tr1 (auth_from auth)"
  shows "fst (verifyPayment env ps ch payment expectedAmount tr) =
           spec_firstFailing (spec_paymentChecks env auth expectedAmount (dateNow ch tr div 1000)
              (usedRead = Inr True)
              (case balanceRead of Inl e \<Rightarrow> auth_value auth | Inr b \<Rightarrow> b))
       \<and> (list_all fst (take 4 (spec_paymentChecks env auth expectedAmount
                                   (dateNow ch tr div 1000) False 0))
            \<and> isl usedRead \<and> isl balanceRead
          \<longrightarrow> verifyPayment env ps ch payment expectedAmount tr =
                (\<lparr>valid = True, reason = None\<rparr>,
                 tr @ [AuthorizationStateRead (auth_from auth) (auth_nonce auth) usedRead,
                       Logged ''Failed to check nonce state'',
                       BalanceOfRead (auth_from auth) balanceRead,
                       Logged ''Failed to check payer balance'']))"
proof (intro conjI impI)
  show "fst (verifyPayment env ps ch payment expectedAmount tr) =
           spec_firstFailing (spec_paymentChecks env auth expectedAmount (dateNow ch tr div 1000)
              (usedRead = Inr True)
              (case balanceRead of Inl e \<Rightarrow> auth_value auth | Inr b \<Rightarrow> b))"
    using verifyPayment_verdict_lenient [OF assms(1), of ch tr usedRead balanceRead] assms
    by simp
next
  assume "list_all fst (take 4 (spec_paymentChecks env auth expectedAmount
                                   (dateNow ch tr div 1000) False 0))
            \<and> isl usedRead \<and> isl balanceRead"
  then obtain e e' where throws: "usedRead = Inl e" "balanceRead = Inl e'"
    and four: "list_all fst (take 4 (spec_paymentChecks env auth expectedAmount
                                   (dateNow ch tr div 1000) False 0))"
    by (cases usedRead; cases balanceRead) auto
  have u: "authorizationState ch tr (auth_from auth) (auth_nonce auth) = Inl e"
    using assms(2) throws(1) by simp
  have t1: "tr1 = tr @ [AuthorizationStateRead (auth_from auth) (auth_nonce auth) (Inl e),
                        Logged ''Failed to check nonce state'']"
    using assms(3) throws(1) by simp
  have b: "balanceOf ch (tr @ [AuthorizationStateRead (auth_from auth) (auth_nonce auth) (Inl e),
                               Logged ''Failed to check nonce state''])
             (auth_from auth) = Inl e'"
    using assms(4) t1 throws(2) by simp
  from verifyPayment_both_throw [OF assms(1) four u b] throws
  show "verifyPayment env ps ch payment expectedAmount tr =
                (\<lparr>valid = True, reason = None\<rparr>,
                 tr @ [AuthorizationStateRead (auth_from auth) (auth_nonce auth) usedRead,
                       Logged ''Failed to check nonce state'',
                       BalanceOfRead (auth_from auth) balanceRead,
                       Logged ''Failed to check payer balance''])"
    by simp
qed

theorem verifyPayment_skips_failed_reads_witness:
  "(payer, ''0xbb'') \<in> set (usedAuthorizations spentLedger)
   \<and> tokenBalance spentLedger payer < 10000
   \<and> authorizationState (ledgerChain spentLedger False 1700000000000) [] payer ''0xbb''
       = Inl (Error ''network error'')
   \<and> verifyPayment demoEnv (paymentService demoServer)
        (ledgerChain spentLedger False 1700000000000) demoPayment 10000 []
      = (\<lparr>valid = True, reason = None\<rparr>,
         [AuthorizationStateRead payer ''0xbb'' (Inl (Error ''network error'')),
          Logged ''Failed to check nonce state'',
          BalanceOfRead payer (Inl (Error ''network error'')),
          Logged ''Failed to check payer balance''])"
proof -
  let ?ch = "ledgerChain spentLedger False 1700000000000"
  let ?auth = "authorization (payload demoPayment)"
  have from_nonce: "auth_from ?auth = payer" "auth_nonce ?auth = ''0xbb''"
    by (simp_all add: demoPayment_def)
  have used: "authorizationState ?ch [] payer ''0xbb'' = Inl (Error ''network error'')"
    by code_simp
  have bal: "balanceOf ?ch
               ([] @ [AuthorizationStateRead payer ''0xbb'' (Inl (Error ''network error''))]
                 @ [Logged ''Failed to check nonce state''])
               payer = Inl (Error ''network error'')"
    by code_simp
  have first_four: "list_all fst (take 4 (spec_paymentChecks demoEnv ?auth 10000
                                            (dateNow ?ch [] div 1000) False 0))"
    by code_simp
  have ledger: "(payer, ''0xbb'') \<in> set (usedAuthorizations spentLedger)"
    "tokenBalance spentLedger payer < 10000"
    by code_simp+
  from verifyPayment_skips_failed_reads [OF refl refl refl refl,
      where payment = demoPayment and ch = ?ch and tr = "[]" and env = demoEnv
        and expectedAmount = 10000 and ps = "paymentService demoServer"]
    first_four used bal
  have "verifyPayment demoEnv (paymentService demoServer) ?ch demoPayment 10000 []
      = (\<lparr>valid = True, reason = None\<rparr>,
         [AuthorizationStateRead payer ''0xbb'' (Inl (Error ''network error'')),
          Logged ''Failed to check nonce state'',
          BalanceOfRead payer (Inl (Error ''network error'')),
          Logged ''Failed to check payer balance''])"
    by (simp add: from_nonce)
  with ledger used show ?thesis by simp
qed

section \<open>Properties of the relay pipeline\<close>

lemma verify_quiet:
  "\<exists>new. snd (verify fs ch request signature tr) = tr @ new
         \<and> (\<forall>ev \<in> set new. \<not> isExecuteEvent ev \<and> signerOf ev = None)"
  by (cases "forwarderVerify ch tr request signature") (simp_all add: verify_def Let_def)

lemma getGasPrice_quiet:
  "\<exists>new. snd (getGasPrice ch tr) = tr @ new
         \<and> (\<forall>ev \<in> set new. \<not> isExecuteEvent ev \<and> signerOf ev = None)"
  by (simp add: getGasPrice_def Let_def split: sum.splits option.splits)

lemma calculatePrice_quiet:
  "\<exists>new. snd (calculatePrice rd env pricing ch gasEstimate priority tr) = tr @ new
         \<and> (\<forall>ev \<in> set new. \<not> isExecuteEvent ev \<and> signerOf ev = None)"
  using getGasPrice_quiet [of ch tr]
  by (auto simp: calculatePrice_def Let_def split: prod.splits sum.splits if_splits)

lemma verifyPayment_quiet:
  "\<exists>new. snd (verifyPayment env ps ch payment expectedAmount tr) = tr @ new
         \<and> (\<forall>ev \<in> set new. \<not> isExecuteEvent ev \<and> signerOf ev = None)"
  by (simp add: verifyPayment_def Let_def split: sum.splits)

lemma executePayment_shape:
  "(\<exists>e new. executePayment ps ch payment tr = (Inl e, tr @ new)
        \<and> (\<forall>ev \<in> set new. \<not> isExecuteEvent ev)
        \<and> (\<forall>ev \<in> set new. \<forall>signer. signerOf ev = Some signer \<longrightarrow> signer = runner (usdcContract ps)))
   \<or> (\<exists>h a b. executePayment ps ch payment tr = (Inr h, tr @ [a, b]) \<and> settledBy a b
        \<and> signerOf a = Some (runner (usdcContract ps)) \<and> signerOf b = None)"
  by (simp add: executePayment_def Let_def split: sum.splits)

lemma execute_extends:
  "\<exists>new. snd (execute fs ch request signature tr) = tr @ new
         \<and> (\<forall>ev \<in> set new. \<forall>signer. signerOf ev = Some signer
               \<longrightarrow> signer = runner (forwarderContract fs))"
  by (simp add: execute_def Let_def split: sum.splits prod.splits)


text \<open>
  The shape of every run of \<^verbatim>\<open>metaRelayController\<close>: the trace only grows; a signed event is
  signed by the runner of one of the two contracts; and either no event of
  \<^verbatim>\<open>forwarderService.execute\<close> occurs, or the new events are reads, then a confirmed
  settlement, then the rest.
\<close>

lemma quiet_signed: "signerOf ev = None \<Longrightarrow> signedByServices server ev"
  by (simp add: signedByServices_def)

lemma metaRelay_run:
  "\<exists>new. snd (snd (metaRelayController rd server ch parsed paymentHeader tr)) = tr @ new
      \<and> (\<forall>ev \<in> set new. signedByServices server ev)
      \<and> ((\<forall>ev \<in> set new. \<not> isExecuteEvent ev)
         \<or> (\<exists>quiet a b rest. new = quiet @ [a, b] @ rest \<and> settledBy a b
               \<and> (\<forall>ev \<in> set quiet. \<not> isExecuteEvent ev)))"
proof (cases parsed)
  case None
  then show ?thesis by (simp add: metaRelayController_def)
next
  case (Some data)
  let ?fs = "forwarderService server" and ?ps = "paymentService server"
  let ?request = "body_request data" and ?signature = "body_signature data"
  obtain isValid tr1 where v: "verify ?fs ch ?request ?signature tr = (isValid, tr1)"
    by fastforce
  from verify_quiet [of ?fs ch ?request ?signature tr] v
  obtain n1 where n1: "tr1 = tr @ n1" "\<forall>ev \<in> set n1. \<not> isExecuteEvent ev \<and> signerOf ev = None"
    by auto
  show ?thesis
  proof (cases isValid)
    case False
    with Some v n1 show ?thesis
      by (auto simp: metaRelayController_def Let_def quiet_signed)
  next
    case True
    obtain q tr2 where c: "calculatePrice rd (environment server) (pricingService server) ch
                             (req_gas ?request) (body_priority data) tr1 = (q, tr2)"
      by fastforce
    from calculatePrice_quiet [of rd "environment server" "pricingService server" ch
        "req_gas ?request" "body_priority data" tr1] c
    obtain n2 where n2: "tr2 = tr1 @ n2" "\<forall>ev \<in> set n2. \<not> isExecuteEvent ev \<and> signerOf ev = None"
      by auto
    show ?thesis
    proof (cases q)
      case (Inl e)
      with Some v True c n1 n2 show ?thesis
        by (auto simp: metaRelayController_def Let_def quiet_signed)
    next
      case (Inr quote)
      show ?thesis
      proof (cases "parsePaymentHeader paymentHeader")
        case None
        with Some v True c Inr n1 n2 show ?thesis
          by (auto simp: metaRelayController_def Let_def quiet_signed)
      next
        case (Some payment)
        then have hdr: "paymentHeader \<noteq> NoHeader"
          by (auto simp: parsePaymentHeader_def)
        obtain verification tr3 where
          p: "verifyPayment (environment server) ?ps ch payment (finalPriceRaw quote) tr2
                = (verification, tr3)"
          by fastforce
        from verifyPayment_quiet [of "environment server" ?ps ch payment "finalPriceRaw quote" tr2] p
        obtain n3 where n3: "tr3 = tr2 @ n3"
          "\<forall>ev \<in> set n3. \<not> isExecuteEvent ev \<and> signerOf ev = None"
          by auto
        show ?thesis
        proof (cases "valid verification")
          case False
          with \<open>parsed = Some data\<close> v True c Inr Some hdr p n1 n2 n3 show ?thesis
            by (auto simp: metaRelayController_def Let_def quiet_signed)
        next
          case ok: True
          from executePayment_shape [of ?ps ch payment tr3] show ?thesis
          proof (elim disjE exE conjE)
            fix e new
            assume x: "executePayment ?ps ch payment tr3 = (Inl e, tr3 @ new)"
              and "\<forall>ev \<in> set new. \<not> isExecuteEvent ev"
              and "\<forall>ev \<in> set new. \<forall>signer. signerOf ev = Some signer
                     \<longrightarrow> signer = runner (usdcContract ?ps)"
            with \<open>parsed = Some data\<close> v True c Inr Some hdr p ok n1 n2 n3 show ?thesis
              by (auto simp: metaRelayController_def Let_def quiet_signed signedByServices_def)
          next
            fix h a b
            assume x: "executePayment ?ps ch payment tr3 = (Inr h, tr3 @ [a, b])"
              and settled: "settledBy a b"
              and signers: "signerOf a = Some (runner (usdcContract ?ps))" "signerOf b = None"
            obtain out tr5 where
              ex: "execute ?fs ch ?request ?signature (tr3 @ [a, b]) = (out, tr5)"
              by fastforce
            from execute_extends [of ?fs ch ?request ?signature "tr3 @ [a, b]"] ex
            obtain n5 where n5: "tr5 = (tr3 @ [a, b]) @ n5"
              "\<forall>ev \<in> set n5. \<forall>signer. signerOf ev = Some signer
                  \<longrightarrow> signer = runner (forwarderContract ?fs)"
              by auto
            define rest where "rest = n5 @ (case out of Inl e \<Rightarrow> [Logged ''Meta-relay error'']
                                           | Inr res \<Rightarrow> [])"
            have final: "snd (snd (metaRelayController rd server ch parsed paymentHeader tr))
                           = tr @ (n1 @ n2 @ n3) @ [a, b] @ rest"
              using \<open>parsed = Some data\<close> v True c Inr Some hdr p ok x ex n1 n2 n3 n5
              by (cases out) (simp_all add: metaRelayController_def Let_def rest_def)
            have signed: "\<forall>ev \<in> set ((n1 @ n2 @ n3) @ [a, b] @ rest). signedByServices server ev"
              using n1 n2 n3 n5 signers
              by (cases out) (auto simp: rest_def signedByServices_def)
            have quiet: "\<forall>ev \<in> set (n1 @ n2 @ n3). \<not> isExecuteEvent ev"
              using n1 n2 n3 by auto
            from quiet settled
            have "\<exists>quiet a' b' rest'. (n1 @ n2 @ n3) @ [a, b] @ rest = quiet @ [a', b'] @ rest'
                    \<and> settledBy a' b' \<and> (\<forall>ev \<in> set quiet. \<not> isExecuteEvent ev)"
              by blast
            with final signed show ?thesis by blast
          qed
        qed
      qed
    qed
  qed
qed



lemma settledBy_not_execute: "settledBy a b \<Longrightarrow> \<not> isExecuteEvent a \<and> \<not> isExecuteEvent b"
  by (induction a b rule: settledBy.induct) simp_all

text \<open>
  C1.  In every run of \<^verbatim>\<open>metaRelayController\<close>, each event of
  \<^verbatim>\<open>forwarderService.execute\<close> that the run adds to the trace comes after a confirmed
  settlement of the same run: a \<^verbatim>\<open>transferWithAuthorization\<close> transaction that was sent,
  followed by its awaited receipt with status 1.  And for a request that reaches the
  settlement step (the body parses, the signature verifies, the price is quoted, the
  header decodes and the payment passes verification), if \<^verbatim>\<open>executePayment\<close> throws then
  the response is 402 \<^verbatim>\<open>PAYMENT_FAILED\<close>, the run ends there, and it contains no event of
  \<^verbatim>\<open>forwarderService.execute\<close>.
\<close>

theorem metaRelay_settlement_before_execution:
  assumes run: "metaRelayController rd server ch parsed paymentHeader tr = (resp, server', tr')"
  shows "(\<forall>i. length tr \<le> i \<and> i < length tr' \<and> isExecuteEvent (tr' ! i)
            \<longrightarrow> (\<exists>j. length tr < j \<and> j < i \<and> settledBy (tr' ! (j - 1)) (tr' ! j)))
       \<and> (\<forall>data quote payment verification tr1 tr2 tr3 e tr4.
            parsed = Some data
            \<and> verify (forwarderService server) ch (body_request data) (body_signature data) tr
                = (True, tr1)
            \<and> calculatePrice rd (environment server) (pricingService server) ch
                  (req_gas (body_request data)) (body_priority data) tr1 = (Inr quote, tr2)
            \<and> paymentHeader = Decoded payment
            \<and> verifyPayment (environment server) (paymentService server) ch payment
                  (finalPriceRaw quote) tr2 = (verification, tr3)
            \<and> valid verification
            \<and> executePayment (paymentService server) ch payment tr3 = (Inl e, tr4)
          \<longrightarrow> resp = Json 402 (ErrorMessage ''PAYMENT_FAILED''
                                  (Some ''Failed to execute payment transfer''))
              \<and> tr' = tr4
              \<and> (\<forall>ev \<in> set (drop (length tr) tr'). \<not> isExecuteEvent ev))"
proof (intro conjI allI impI)
  fix i
  assume i: "length tr \<le> i \<and> i < length tr' \<and> isExecuteEvent (tr' ! i)"
  from run have t: "snd (snd (metaRelayController rd server ch parsed paymentHeader tr)) = tr'"
    by simp
  from metaRelay_run [of rd server ch parsed paymentHeader tr, unfolded t]
  obtain new where new: "tr' = tr @ new"
    and shape: "(\<forall>ev \<in> set new. \<not> isExecuteEvent ev)
         \<or> (\<exists>quiet a b rest. new = quiet @ [a, b] @ rest \<and> settledBy a b
               \<and> (\<forall>ev \<in> set quiet. \<not> isExecuteEvent ev))"
    by blast
  define k where "k = i - length tr"
  from i new have k: "k < length new" "tr' ! i = new ! k" "i = length tr + k"
    by (auto simp: k_def nth_append)
  from shape show "\<exists>j. length tr < j \<and> j < i \<and> settledBy (tr' ! (j - 1)) (tr' ! j)"
  proof (elim disjE exE conjE)
    assume "\<forall>ev \<in> set new. \<not> isExecuteEvent ev"
    with k i show ?thesis by (metis nth_mem)
  next
    fix quiet a b rest
    assume parts: "new = quiet @ [a, b] @ rest" and settled: "settledBy a b"
      and quiet: "\<forall>ev \<in> set quiet. \<not> isExecuteEvent ev"
    have "\<not> k < length quiet"
    proof
      assume "k < length quiet"
      with parts have "new ! k \<in> set quiet" by (simp add: nth_append)
      with quiet k i show False by simp
    qed
    moreover have "k \<noteq> length quiet" "k \<noteq> Suc (length quiet)"
      using parts settledBy_not_execute [OF settled] k i by (auto simp: nth_append)
    ultimately have far: "Suc (length quiet) < k" by linarith
    let ?j = "length tr + Suc (length quiet)"
    have "tr' ! (?j - 1) = a" "tr' ! ?j = b"
      using new parts by (simp_all add: nth_append)
    with settled far k show ?thesis
      by (intro exI [of _ ?j]) simp
  qed
next
  fix data quote payment verification tr1 tr2 tr3 e tr4
  assume path: "parsed = Some data
            \<and> verify (forwarderService server) ch (body_request data) (body_signature data) tr
                = (True, tr1)
            \<and> calculatePrice rd (environment server) (pricingService server) ch
                  (req_gas (body_request data)) (body_priority data) tr1 = (Inr quote, tr2)
            \<and> paymentHeader = Decoded payment
            \<and> verifyPayment (environment server) (paymentService server) ch payment
                  (finalPriceRaw quote) tr2 = (verification, tr3)
            \<and> valid verification
            \<and> executePayment (paymentService server) ch payment tr3 = (Inl e, tr4)"
  with run show "resp = Json 402 (ErrorMessage ''PAYMENT_FAILED''
                                  (Some ''Failed to execute payment transfer''))"
    and end_: "tr' = tr4"
    by (simp_all add: metaRelayController_def Let_def parsePaymentHeader_def)
  from path verify_quiet [of "forwarderService server" ch "body_request data"
      "body_signature data" tr]
  obtain n1 where n1: "tr1 = tr @ n1" "\<forall>ev \<in> set n1. \<not> isExecuteEvent ev" by auto
  from path calculatePrice_quiet [of rd "environment server" "pricingService server" ch
      "req_gas (body_request data)" "body_priority data" tr1]
  obtain n2 where n2: "tr2 = tr1 @ n2" "\<forall>ev \<in> set n2. \<not> isExecuteEvent ev" by auto
  from path verifyPayment_quiet [of "environment server" "paymentService server" ch payment
      "finalPriceRaw quote" tr2]
  obtain n3 where n3: "tr3 = tr2 @ n3" "\<forall>ev \<in> set n3. \<not> isExecuteEvent ev" by auto
  from path executePayment_shape [of "paymentService server" ch payment tr3]
  obtain n4 where n4: "tr4 = tr3 @ n4" "\<forall>ev \<in> set n4. \<not> isExecuteEvent ev" by auto
  from end_ n1 n2 n3 n4 show "\<forall>ev \<in> set (drop (length tr) tr'). \<not> isExecuteEvent ev"
    by auto
qed


theorem metaRelay_settlement_before_execution_witness:
  "metaRelayController exact demoServer revertingChain (Some demoBody) (Decoded paidPayment) []
     = (Json 402 (ErrorMessage ''PAYMENT_FAILED'' (Some ''Failed to execute payment transfer'')),
        demoServer,
        admissionTrace @ settlementEvents 0 @ [Logged ''Payment execution failed''])
   \<and> filter isExecuteEvent
        (admissionTrace @ settlementEvents 0 @ [Logged ''Payment execution failed'']) = []
   \<and> metaRelayController exact demoServer (ledgerChain fundedLedger True 1700000000000)
        (Some demoBody) (Decoded paidPayment) []
     = (Json 200 (Relayed True ''0xexecute0'' ''0xpayment'' ''0x'' Normal), demoServer,
        admissionTrace @ settlementEvents 1 @ executionEvents demoRequest ''0xsigned'')
   \<and> isExecuteEvent ((admissionTrace @ settlementEvents 1
                         @ executionEvents demoRequest ''0xsigned'') ! 6)
   \<and> (\<exists>j. 0 < j \<and> j < 6
          \<and> settledBy ((admissionTrace @ settlementEvents 1
                           @ executionEvents demoRequest ''0xsigned'') ! (j - 1))
                       ((admissionTrace @ settlementEvents 1
                           @ executionEvents demoRequest ''0xsigned'') ! j))"
proof -
  let ?good = "ledgerChain fundedLedger True 1700000000000"
  let ?failed = "admissionTrace @ settlementEvents 0 @ [Logged ''Payment execution failed'']"
  let ?relayed = "admissionTrace @ settlementEvents 1 @ executionEvents demoRequest ''0xsigned''"
  let ?quote = "quoteFor exact demoEnv (3 / 20) 1700000000000 5000000000000 100000 Normal"
  have failed_run:
    "metaRelayController exact demoServer revertingChain (Some demoBody) (Decoded paidPayment) []
       = (Json 402 (ErrorMessage ''PAYMENT_FAILED'' (Some ''Failed to execute payment transfer'')),
          demoServer, ?failed)"
    by code_simp
  have relayed_run:
    "metaRelayController exact demoServer ?good (Some demoBody) (Decoded paidPayment) []
       = (Json 200 (Relayed True ''0xexecute0'' ''0xpayment'' ''0x'' Normal), demoServer, ?relayed)"
    by code_simp
  have verified:
    "verify (forwarderService demoServer) revertingChain (body_request demoBody)
       (body_signature demoBody) [] = (True, take 1 admissionTrace)"
    by code_simp
  have quoted:
    "calculatePrice exact (environment demoServer) (pricingService demoServer) revertingChain
       (req_gas (body_request demoBody)) (body_priority demoBody) (take 1 admissionTrace)
       = (Inr ?quote, take 2 admissionTrace)"
    by code_simp
  have paid:
    "verifyPayment (environment demoServer) (paymentService demoServer) revertingChain paidPayment
       (finalPriceRaw ?quote) (take 2 admissionTrace)
       = (\<lparr>valid = True, reason = None\<rparr>, admissionTrace)"
    by code_simp
  have thrown:
    "executePayment (paymentService demoServer) revertingChain paidPayment admissionTrace
       = (Inl (Error ''Payment transaction failed''), ?failed)"
    by code_simp
  from metaRelay_settlement_before_execution [OF failed_run] verified quoted paid thrown
  have "\<forall>ev \<in> set (drop (length ([] :: event list)) ?failed). \<not> isExecuteEvent ev"
    by (metis Verification.select_convs(1))
  then have no_execute: "filter isExecuteEvent ?failed = []"
    by (simp add: filter_empty_conv)
  have sixth: "length ([] :: event list) \<le> 6 \<and> 6 < length ?relayed \<and> isExecuteEvent (?relayed ! 6)"
    by code_simp
  with metaRelay_settlement_before_execution [OF relayed_run]
  have "\<exists>j. length ([] :: event list) < j \<and> j < 6
            \<and> settledBy (?relayed ! (j - 1)) (?relayed ! j)"
    by blast
  with failed_run no_execute relayed_run sixth show ?thesis by simp
qed

section \<open>Properties of the batch pipeline\<close>

lemma verifyAll_quiet:
  "\<exists>new. snd (verifyAll fs ch i requests tr) = tr @ new
         \<and> (\<forall>ev \<in> set new. \<not> isExecuteEvent ev \<and> signerOf ev = None)"
proof (induction requests arbitrary: i tr)
  case Nil
  show ?case by simp
next
  case (Cons a requests)
  obtain request signature where a: "a = (request, signature)" by (cases a)
  obtain isValid tr1 where v: "verify fs ch request signature tr = (isValid, tr1)"
    by fastforce
  from verify_quiet [of fs ch request signature tr] v
  obtain n1 where n1: "tr1 = tr @ n1" "\<forall>ev \<in> set n1. \<not> isExecuteEvent ev \<and> signerOf ev = None"
    by auto
  show ?case
  proof (cases isValid)
    case False
    with a v n1 show ?thesis by simp
  next
    case True
    from Cons.IH [of "i + 1" tr1]
    obtain n2 where "snd (verifyAll fs ch (i + 1) requests tr1) = tr1 @ n2"
      "\<forall>ev \<in> set n2. \<not> isExecuteEvent ev \<and> signerOf ev = None"
      by blast
    with True a v n1 show ?thesis by (intro exI [of _ "n1 @ n2"]) auto
  qed
qed

lemma traceAfter_Cons:
  "traceAfter fs ch ((request, signature) # rest) tr (Suc k)
     = traceAfter fs ch rest (snd (execute fs ch request signature tr)) k"
  by (induction k) simp_all

lemma executeAll_sequential:
  "executeAll fs ch requests acc tr =
     (acc @ map (\<lambda>k. itemOf (fst (requests ! k))
                        (fst (execute fs ch (fst (requests ! k)) (snd (requests ! k))
                                 (traceAfter fs ch requests tr k))))
                [0 ..< length requests],
      traceAfter fs ch requests tr (length requests))"
proof (induction requests arbitrary: acc tr)
  case Nil
  show ?case by simp
next
  case (Cons a rest)
  obtain request signature where a: "a = (request, signature)" by (cases a)
  obtain out tr1 where x: "execute fs ch request signature tr = (out, tr1)" by fastforce
  have step: "executeAll fs ch (a # rest) acc tr = executeAll fs ch rest (acc @ [itemOf request out]) tr1"
  proof (cases out)
    case (Inl e)
    then show ?thesis using a x by (cases e) (simp add: itemOf_def)
  next
    case (Inr res)
    then show ?thesis using a x by (simp add: itemOf_def)
  qed
  have shift: "map (\<lambda>k. itemOf (fst ((a # rest) ! k))
                        (fst (execute fs ch (fst ((a # rest) ! k)) (snd ((a # rest) ! k))
                                 (traceAfter fs ch (a # rest) tr k))))
                [0 ..< length (a # rest)]
             = itemOf request out
               # map (\<lambda>k. itemOf (fst (rest ! k))
                        (fst (execute fs ch (fst (rest ! k)) (snd (rest ! k))
                                 (traceAfter fs ch rest tr1 k))))
                   [0 ..< length rest]"
  proof -
    have "[0 ..< length (a # rest)] = 0 # map Suc [0 ..< length rest]"
      by (simp add: upt_conv_Cons map_Suc_upt del: upt_Suc)
    then show ?thesis
      using a x by (simp add: traceAfter_Cons o_def del: upt_Suc traceAfter.simps(2))
  qed
  have final: "traceAfter fs ch (a # rest) tr (length (a # rest)) = traceAfter fs ch rest tr1 (length rest)"
    using a x by (simp add: traceAfter_Cons del: traceAfter.simps(2))
  show ?case
    unfolding step Cons.IH shift final by simp
qed

lemma all_counted: "length (filter P xs) = length xs \<longleftrightarrow> (\<forall>x \<in> set xs. P x)"
  by (induction xs) (auto simp: le_imp_less_Suc [THEN less_imp_neq] dest: length_filter_le [THEN le_less_trans])


lemma itemTo_itemOf: "itemTo (itemOf request outcome) = req_to request"
proof (cases outcome)
  case (Inl e)
  then show ?thesis by (cases e) (simp add: itemOf_def)
next
  case (Inr res)
  then show ?thesis by (simp add: itemOf_def)
qed

lemma metaBatch_relayed:
  assumes "metaBatchController rd server ch (Some data) paymentHeader tr
             = (Json 200 (BatchRelayed r), server', tr')"
  obtains tr1 quote tr2 payment verification tr3 h tr4 where
    "verifyAll (forwarderService server) ch 0 (batch_requests data) tr = (None, tr1)"
    "calculatePrice rd (environment server) (pricingService server) ch
       (foldl (\<lambda>sum r. sum + req_gas (fst r)) 0 (batch_requests data)) (batch_priority data) tr1
       = (Inr quote, tr2)"
    "verifyPayment (environment server) (paymentService server) ch payment
       (bigint_div (finalPriceRaw quote * 90) 100) tr2 = (verification, tr3)"
    "executePayment (paymentService server) ch payment tr3 = (Inr h, tr4)"
    "executeAll (forwarderService server) ch (batch_requests data) [] tr4 = (batch_results r, tr')"
    "batch_success r = (length (filter itemSuccess (batch_results r)) = length (batch_results r))"
    "batch_successCount r = length (filter itemSuccess (batch_results r))"
    "batch_totalCount r = length (batch_results r)"
    "batch_paymentTxHash r = h"
  using assms
  by (auto simp: metaBatchController_def Let_def
      split: option.splits prod.splits sum.splits if_splits)


text \<open>
  C7.  Take a batch relay that settled and answered 200.  Its requests were executed one
  after the other in list order, starting from the trace \<open>settled\<close> that ends with the
  confirmed settlement: the \<open>k\<close>-th execution starts from the trace left by the first \<open>k\<close>
  executions, and the run ends with the trace left by all of them.  The response holds
  one entry per request, in the same order: \<^verbatim>\<open>{success, txHash, to}\<close> when
  \<^verbatim>\<open>forwarderService.execute\<close> returned and \<^verbatim>\<open>{success: false, error, to}\<close> when it threw,
  with \<^verbatim>\<open>to\<close> the target of the request.  The overall \<^verbatim>\<open>success\<close> field is true if and
  only if every entry reports success.
\<close>

theorem metaBatch_sequential_results:
  assumes run: "metaBatchController rd server ch (Some data) paymentHeader tr
                  = (Json 200 (BatchRelayed r), server', tr')"
  shows "\<exists>settled.
           (\<exists>quiet a b. settled = tr @ quiet @ [a, b] \<and> settledBy a b
                \<and> (\<forall>ev \<in> set quiet. \<not> isExecuteEvent ev))
         \<and> length (batch_results r) = length (batch_requests data)
         \<and> (\<forall>k < length (batch_requests data).
               batch_results r ! k =
                 itemOf (fst (batch_requests data ! k))
                   (fst (execute (forwarderService server) ch
                           (fst (batch_requests data ! k)) (snd (batch_requests data ! k))
                           (traceAfter (forwarderService server) ch (batch_requests data)
                              settled k)))
               \<and> itemTo (batch_results r ! k) = req_to (fst (batch_requests data ! k)))
         \<and> tr' = traceAfter (forwarderService server) ch (batch_requests data) settled
                    (length (batch_requests data))
         \<and> (batch_success r \<longleftrightarrow> (\<forall>item \<in> set (batch_results r). itemSuccess item))
         \<and> batch_successCount r = length (filter itemSuccess (batch_results r))
         \<and> batch_totalCount r = length (batch_results r)"
proof -
  let ?fs = "forwarderService server" and ?requests = "batch_requests data"
  from run obtain tr1 quote tr2 payment verification tr3 h tr4 where
    v: "verifyAll ?fs ch 0 ?requests tr = (None, tr1)"
    and c: "calculatePrice rd (environment server) (pricingService server) ch
       (foldl (\<lambda>sum r. sum + req_gas (fst r)) 0 ?requests) (batch_priority data) tr1
       = (Inr quote, tr2)"
    and p: "verifyPayment (environment server) (paymentService server) ch payment
       (bigint_div (finalPriceRaw quote * 90) 100) tr2 = (verification, tr3)"
    and x: "executePayment (paymentService server) ch payment tr3 = (Inr h, tr4)"
    and all: "executeAll ?fs ch ?requests [] tr4 = (batch_results r, tr')"
    and counts: "batch_success r = (length (filter itemSuccess (batch_results r))
                                      = length (batch_results r))"
      "batch_successCount r = length (filter itemSuccess (batch_results r))"
      "batch_totalCount r = length (batch_results r)"
    by (rule metaBatch_relayed)
  from verifyAll_quiet [of ?fs ch 0 ?requests tr] v
  obtain n1 where n1: "tr1 = tr @ n1" "\<forall>ev \<in> set n1. \<not> isExecuteEvent ev" by auto
  from calculatePrice_quiet [of rd "environment server" "pricingService server" ch
      "foldl (\<lambda>sum r. sum + req_gas (fst r)) 0 ?requests" "batch_priority data" tr1] c
  obtain n2 where n2: "tr2 = tr1 @ n2" "\<forall>ev \<in> set n2. \<not> isExecuteEvent ev" by auto
  from verifyPayment_quiet [of "environment server" "paymentService server" ch payment
      "bigint_div (finalPriceRaw quote * 90) 100" tr2] p
  obtain n3 where n3: "tr3 = tr2 @ n3" "\<forall>ev \<in> set n3. \<not> isExecuteEvent ev" by auto
  from executePayment_shape [of "paymentService server" ch payment tr3] x
  obtain a b where ab: "tr4 = tr3 @ [a, b]" "settledBy a b" by auto
  have settled: "\<exists>quiet a b. tr4 = tr @ quiet @ [a, b] \<and> settledBy a b
                   \<and> (\<forall>ev \<in> set quiet. \<not> isExecuteEvent ev)"
    using n1 n2 n3 ab by (intro exI [of _ "n1 @ n2 @ n3"] exI [of _ a] exI [of _ b]) auto
  from all executeAll_sequential [of ?fs ch ?requests "[]" tr4]
  have items: "batch_results r =
                 map (\<lambda>k. itemOf (fst (?requests ! k))
                        (fst (execute ?fs ch (fst (?requests ! k)) (snd (?requests ! k))
                                 (traceAfter ?fs ch ?requests tr4 k))))
                     [0 ..< length ?requests]"
    and final: "tr' = traceAfter ?fs ch ?requests tr4 (length ?requests)"
    by simp_all
  have len: "length (batch_results r) = length ?requests"
    by (subst items) simp
  have each: "\<forall>k < length ?requests.
               batch_results r ! k =
                 itemOf (fst (?requests ! k))
                   (fst (execute ?fs ch (fst (?requests ! k)) (snd (?requests ! k))
                           (traceAfter ?fs ch ?requests tr4 k)))
               \<and> itemTo (batch_results r ! k) = req_to (fst (?requests ! k))"
  proof (intro allI impI)
    fix k
    assume k: "k < length ?requests"
    have "batch_results r ! k =
            itemOf (fst (?requests ! k))
              (fst (execute ?fs ch (fst (?requests ! k)) (snd (?requests ! k))
                      (traceAfter ?fs ch ?requests tr4 k)))"
      by (subst items) (simp add: k)
    then show "batch_results r ! k =
                 itemOf (fst (?requests ! k))
                   (fst (execute ?fs ch (fst (?requests ! k)) (snd (?requests ! k))
                           (traceAfter ?fs ch ?requests tr4 k)))
               \<and> itemTo (batch_results r ! k) = req_to (fst (?requests ! k))"
      by (simp add: itemTo_itemOf)
  qed
  have overall: "batch_success r \<longleftrightarrow> (\<forall>item \<in> set (batch_results r). itemSuccess item)"
    using counts(1) by (simp add: all_counted)
  show ?thesis
  proof (rule exI [of _ tr4], intro conjI)
    show "\<exists>quiet a b. tr4 = tr @ quiet @ [a, b] \<and> settledBy a b
                   \<and> (\<forall>ev \<in> set quiet. \<not> isExecuteEvent ev)"
      by (rule settled)
    show "length (batch_results r) = length ?requests" by (rule len)
    show "\<forall>k < length ?requests.
               batch_results r ! k =
                 itemOf (fst (?requests ! k))
                   (fst (execute ?fs ch (fst (?requests ! k)) (snd (?requests ! k))
                           (traceAfter ?fs ch ?requests tr4 k)))
               \<and> itemTo (batch_results r ! k) = req_to (fst (?requests ! k))"
      by (rule each)
    show "tr' = traceAfter ?fs ch ?requests tr4 (length ?requests)" by (rule final)
    show "batch_success r \<longleftrightarrow> (\<forall>item \<in> set (batch_results r). itemSuccess item)"
      by (rule overall)
    show "batch_successCount r = length (filter itemSuccess (batch_results r))"
      by (rule counts(2))
    show "batch_totalCount r = length (batch_results r)" by (rule counts(3))
  qed
qed


theorem metaBatch_sequential_results_witness:
  "fst (metaBatchController exact demoServer flakyChain (Some batchBody) (Decoded batchPayment) [])
     = Json 200 (BatchRelayed
         \<lparr>batch_success = False, batch_successCount = 2, batch_totalCount = 3,
          batch_paymentTxHash = ''0xpayment'',
          batch_results = [ItemExecuted True ''0xexecute0'' ''0xTarget'',
                           ItemFailed ''execution reverted'' ''0xOther'',
                           ItemExecuted True ''0xexecute2'' ''0xTarget''],
          batch_response_priority = Normal\<rparr>)
   \<and> map itemSuccess [ItemExecuted True ''0xexecute0'' ''0xTarget'',
                       ItemFailed ''execution reverted'' ''0xOther'',
                       ItemExecuted True ''0xexecute2'' ''0xTarget''] = [True, False, True]
   \<and> fst (metaBatchController exact demoServer (ledgerChain fundedLedger True 1700000000000)
            (Some batchBody) (Decoded batchPayment) [])
     = Json 200 (BatchRelayed
         \<lparr>batch_success = True, batch_successCount = 3, batch_totalCount = 3,
          batch_paymentTxHash = ''0xpayment'',
          batch_results = [ItemExecuted True ''0xexecute0'' ''0xTarget'',
                           ItemExecuted True ''0xexecute1'' ''0xOther'',
                           ItemExecuted True ''0xexecute2'' ''0xTarget''],
          batch_response_priority = Normal\<rparr>)
   \<and> list_all itemSuccess [ItemExecuted True ''0xexecute0'' ''0xTarget'',
                            ItemExecuted True ''0xexecute1'' ''0xOther'',
                            ItemExecuted True ''0xexecute2'' ''0xTarget'']"
proof -
  let ?partial = "\<lparr>batch_success = False, batch_successCount = 2, batch_totalCount = 3,
          batch_paymentTxHash = ''0xpayment'',
          batch_results = [ItemExecuted True ''0xexecute0'' ''0xTarget'',
                           ItemFailed ''execution reverted'' ''0xOther'',
                           ItemExecuted True ''0xexecute2'' ''0xTarget''],
          batch_response_priority = Normal\<rparr>"
  let ?full = "\<lparr>batch_success = True, batch_successCount = 3, batch_totalCount = 3,
          batch_paymentTxHash = ''0xpayment'',
          batch_results = [ItemExecuted True ''0xexecute0'' ''0xTarget'',
                           ItemExecuted True ''0xexecute1'' ''0xOther'',
                           ItemExecuted True ''0xexecute2'' ''0xTarget''],
          batch_response_priority = Normal\<rparr>"
  have partial: "fst (metaBatchController exact demoServer flakyChain (Some batchBody)
                        (Decoded batchPayment) []) = Json 200 (BatchRelayed ?partial)"
    by code_simp
  have full: "fst (metaBatchController exact demoServer (ledgerChain fundedLedger True 1700000000000)
                     (Some batchBody) (Decoded batchPayment) []) = Json 200 (BatchRelayed ?full)"
    by code_simp
  obtain s1 t1 where run1: "metaBatchController exact demoServer flakyChain (Some batchBody)
                              (Decoded batchPayment) [] = (Json 200 (BatchRelayed ?partial), s1, t1)"
    using partial by (metis prod.collapse)
  obtain s2 t2 where run2: "metaBatchController exact demoServer
                              (ledgerChain fundedLedger True 1700000000000) (Some batchBody)
                              (Decoded batchPayment) [] = (Json 200 (BatchRelayed ?full), s2, t2)"
    using full by (metis prod.collapse)
  from metaBatch_sequential_results [OF run1]
  have "batch_success ?partial \<longleftrightarrow> (\<forall>item \<in> set (batch_results ?partial). itemSuccess item)"
    by blast
  then have some_failed: "map itemSuccess (batch_results ?partial) = [True, False, True]"
    by simp
  from metaBatch_sequential_results [OF run2]
  have "batch_success ?full \<longleftrightarrow> (\<forall>item \<in> set (batch_results ?full). itemSuccess item)"
    by blast
  then have all_ok: "list_all itemSuccess (batch_results ?full)"
    by (simp add: list_all_iff)
  from partial some_failed full all_ok show ?thesis by simp
qed

section \<open>Signers and the relayer pool\<close>
























section \<open>Properties of pricing\<close>

lemma dominates_rd:
  assumes "faithful rd" "dominates x y"
  shows "dominates (rd x) (rd y)"
proof -
  from assms(1) have m: "\<And>a b. a \<le> b \<Longrightarrow> rd a \<le> rd b" and z: "rd 0 = 0"
    by (auto simp: faithful_def)
  from assms(2) show ?thesis
    unfolding dominates_def
  proof
    assume "0 \<le> x \<and> x \<le> y"
    then have "rd 0 \<le> rd x" "rd x \<le> rd y" by (auto intro: m)
    then show "0 \<le> rd x \<and> rd x \<le> rd y \<or> rd y \<le> rd x \<and> rd x \<le> 0" by (simp add: z)
  next
    assume "y \<le> x \<and> x \<le> 0"
    then have "rd y \<le> rd x" "rd x \<le> rd 0" by (auto intro: m)
    then show "0 \<le> rd x \<and> rd x \<le> rd y \<or> rd y \<le> rd x \<and> rd x \<le> 0" by (simp add: z)
  qed
qed

lemma dominates_scale:
  fixes x y k :: "'a::linordered_idom"
  assumes "dominates x y"
  shows "dominates (k * x) (k * y)" "dominates (x * k) (y * k)"
proof -
  show "dominates (k * x) (k * y)"
  proof (cases "0 \<le> k")
    case True
    with assms show ?thesis
      unfolding dominates_def
      by (auto simp: mult_left_mono zero_le_mult_iff mult_le_0_iff)
  next
    case False
    then have "k \<le> 0" by simp
    with assms show ?thesis
      unfolding dominates_def
      by (auto simp: mult_left_mono_neg zero_le_mult_iff mult_le_0_iff)
  qed
  then show "dominates (x * k) (y * k)" by (simp add: mult.commute)
qed

lemma dominates_grow:
  fixes x y :: "'a::linordered_idom"
  assumes "dominates x y" "0 \<le> a" "a \<le> b"
  shows "dominates (x * a) (y * b)"
  using assms(1) unfolding dominates_def
proof (elim disjE conjE)
  assume "0 \<le> x" "x \<le> y"
  with assms(2,3) have "0 \<le> x * a" "x * a \<le> y * b"
    by (auto intro: mult_mono)
  then show "0 \<le> x * a \<and> x * a \<le> y * b \<or> y * b \<le> x * a \<and> x * a \<le> 0" by simp
next
  assume yx: "y \<le> x" and x0: "x \<le> 0"
  from x0 assms(2) have "x * a \<le> 0" by (simp add: mult_le_0_iff)
  moreover have "(- x) * a \<le> (- y) * b"
    using yx x0 assms(2,3) by (intro mult_mono) simp_all
  then have "y * b \<le> x * a" by simp
  ultimately show "0 \<le> x * a \<and> x * a \<le> y * b \<or> y * b \<le> x * a \<and> x * a \<le> 0" by simp
qed

lemma dominates_floor:
  fixes x y :: rat
  assumes "dominates x y"
  shows "dominates \<lfloor>x\<rfloor> \<lfloor>y\<rfloor>"
  using assms unfolding dominates_def
proof (elim disjE conjE)
  assume "0 \<le> x" "x \<le> y"
  then have "0 \<le> \<lfloor>x\<rfloor>" "\<lfloor>x\<rfloor> \<le> \<lfloor>y\<rfloor>" by (simp_all add: floor_mono)
  then show "0 \<le> \<lfloor>x\<rfloor> \<and> \<lfloor>x\<rfloor> \<le> \<lfloor>y\<rfloor> \<or> \<lfloor>y\<rfloor> \<le> \<lfloor>x\<rfloor> \<and> \<lfloor>x\<rfloor> \<le> 0" by simp
next
  assume "y \<le> x" "x \<le> 0"
  then have "\<lfloor>y\<rfloor> \<le> \<lfloor>x\<rfloor>" "\<lfloor>x\<rfloor> \<le> 0" by (simp_all add: floor_mono floor_le_zero)
  then show "0 \<le> \<lfloor>x\<rfloor> \<and> \<lfloor>x\<rfloor> \<le> \<lfloor>y\<rfloor> \<or> \<lfloor>y\<rfloor> \<le> \<lfloor>x\<rfloor> \<and> \<lfloor>x\<rfloor> \<le> 0" by simp
qed

lemma dominates_of_int:
  "dominates (x::int) y \<Longrightarrow> dominates (of_int x :: rat) (of_int y)"
  unfolding dominates_def by simp

lemma dominates_divide:
  fixes x y :: rat
  assumes "dominates x y" "0 < c"
  shows "dominates (x / c) (y / c)"
  using assms unfolding dominates_def
  by (auto simp: divide_right_mono zero_le_divide_iff divide_le_0_iff)

lemma clamp_dominated:
  fixes p1 p2 :: rat
  assumes "dominates p1 p2" "0 \<le> f1" "f1 \<le> f2"
  shows "min (max p1 f1) cap \<le> min (max p2 f2) cap"
  using assms unfolding dominates_def by (auto simp: max_def min_def)

lemma toFixed6_mono: "x \<le> y \<Longrightarrow> toFixed6 x \<le> toFixed6 y"
proof -
  assume xy: "x \<le> y"
  have pos: "0 \<le> \<lfloor>z * 10 ^ 6 + 1 / 2\<rfloor>" if "0 \<le> z" for z :: rat
    using that by (simp add: zero_le_floor) 
  show ?thesis
  proof (cases "x < 0"; cases "y < 0")
    assume "x < 0" "y < 0"
    with xy have "\<lfloor>- y * 10 ^ 6 + 1 / 2\<rfloor> \<le> \<lfloor>- x * 10 ^ 6 + 1 / 2\<rfloor>"
      by (intro floor_mono) simp
    with \<open>x < 0\<close> \<open>y < 0\<close> show ?thesis by (simp add: toFixed6_def)
  next
    assume "x < 0" "\<not> y < 0"
    then have "0 \<le> \<lfloor>- x * 10 ^ 6 + 1 / 2\<rfloor>" "0 \<le> \<lfloor>y * 10 ^ 6 + 1 / 2\<rfloor>"
      using pos [of "- x"] pos [of y] by simp_all
    then have "- \<lfloor>- x * 10 ^ 6 + 1 / 2\<rfloor> \<le> \<lfloor>y * 10 ^ 6 + 1 / 2\<rfloor>" by linarith
    with \<open>x < 0\<close> \<open>\<not> y < 0\<close> show ?thesis unfolding toFixed6_def by simp
  next
    assume "\<not> x < 0" "y < 0"
    with xy show ?thesis by simp
  next
    assume "\<not> x < 0" "\<not> y < 0"
    with xy have "\<lfloor>x * 10 ^ 6 + 1 / 2\<rfloor> \<le> \<lfloor>y * 10 ^ 6 + 1 / 2\<rfloor>"
      by (intro floor_mono) simp
    with \<open>\<not> x < 0\<close> \<open>\<not> y < 0\<close> show ?thesis by (simp add: toFixed6_def)
  qed
qed


lemma floor_rat_numeral: "\<lfloor>(numeral a :: rat) / numeral b\<rfloor> = numeral a div numeral b"
  using floor_divide_of_int_eq [of "numeral a" "numeral b", where ?'a = rat] by simp

lemmas quoteFor_unfold = quoteFor_def Let_def fmul_def fadd_def fsub_def fdiv_def
  Number_of_bigint_def Number_formatUnits_def exact_def PRIORITY_CONFIGS_def MAX_PRICE_USDC_def
  toFixed6_def QUOTE_VALIDITY_SECONDS_def floor_rat_numeral


lemma dominates_refl: "dominates x x"
  unfolding dominates_def by auto

lemma quoteFor_mono:
  assumes rd: "faithful rd" and env: "envSchema env"
    and m: "0 \<le> markupMultiplier (PRIORITY_CONFIGS rd p1)"
      "markupMultiplier (PRIORITY_CONFIGS rd p1) \<le> markupMultiplier (PRIORITY_CONFIGS rd p2)"
    and g: "0 \<le> gasPriceMultiplier (PRIORITY_CONFIGS rd p1)"
      "gasPriceMultiplier (PRIORITY_CONFIGS rd p1) \<le> gasPriceMultiplier (PRIORITY_CONFIGS rd p2)"
  shows "finalPriceUSD (quoteFor rd env cro now baseGasPrice gasEstimate p1)
           \<le> finalPriceUSD (quoteFor rd env cro now baseGasPrice gasEstimate p2)"
proof -
  from rd have mono: "\<And>a b. a \<le> b \<Longrightarrow> rd a \<le> rd b" and zero: "rd 0 = 0" and one: "rd 1 = 1"
    by (auto simp: faithful_def)
  from env have pct: "0 \<le> MARKUP_PERCENTAGE env" and floor_price: "0 < MIN_PRICE_USDC env"
    by (auto simp: envSchema_def)
  define m1 where "m1 = markupMultiplier (PRIORITY_CONFIGS rd p1)"
  define m2 where "m2 = markupMultiplier (PRIORITY_CONFIGS rd p2)"
  define g1 where "g1 = gasPriceMultiplier (PRIORITY_CONFIGS rd p1)"
  define g2 where "g2 = gasPriceMultiplier (PRIORITY_CONFIGS rd p2)"
  note mults = m [folded m1_def m2_def] g [folded g1_def g2_def]
  define A where "A = (\<lambda>gm. \<lfloor>rd (rd (of_int baseGasPrice) * gm)\<rfloor>)"
  define B where "B = (\<lambda>gm. rd (rd (of_int (gasEstimate * A gm) / 10 ^ 18) * cro))"
  define d where "d = rd (rd (1 + rd (MARKUP_PERCENTAGE env / 100)) - 1)"
  define M where "M = (\<lambda>mm. rd (1 + rd (d * mm)))"
  define F where "F = (\<lambda>mm. max (rd (MIN_PRICE_USDC env * mm)) (rd (5 / 1000)))"
  have final: "finalPriceUSD (quoteFor rd env cro now baseGasPrice gasEstimate p) =
                 min (max (rd (B (gasPriceMultiplier (PRIORITY_CONFIGS rd p))
                               * M (markupMultiplier (PRIORITY_CONFIGS rd p))))
                          (F (markupMultiplier (PRIORITY_CONFIGS rd p))))
                     (MAX_PRICE_USDC rd)" for p
    by (simp add: quoteFor_def Let_def fmul_def fadd_def fsub_def fdiv_def Number_of_bigint_def
        Number_formatUnits_def A_def B_def d_def M_def F_def)
  have "dominates (rd (of_int baseGasPrice) * g1) (rd (of_int baseGasPrice) * g2)"
    using mults by (intro dominates_grow dominates_refl)
  then have "dominates (A g1) (A g2)"
    unfolding A_def by (intro dominates_floor dominates_rd [OF rd])
  then have "dominates (gasEstimate * A g1) (gasEstimate * A g2)"
    by (rule dominates_scale)
  then have cost: "dominates (rd (of_int (gasEstimate * A g1) / 10 ^ 18))
                             (rd (of_int (gasEstimate * A g2) / 10 ^ 18))"
    by (intro dominates_rd [OF rd] dominates_divide dominates_of_int) simp_all
  have base: "dominates (B g1) (B g2)"
    unfolding B_def by (rule dominates_rd [OF rd dominates_scale(2) [OF cost]])
  have "0 \<le> rd (MARKUP_PERCENTAGE env / 100)"
    using mono [of 0 "MARKUP_PERCENTAGE env / 100"] pct by (simp add: zero)
  then have "1 \<le> rd (1 + rd (MARKUP_PERCENTAGE env / 100))"
    using mono [of 1 "1 + rd (MARKUP_PERCENTAGE env / 100)"] by (simp add: one)
  then have d: "0 \<le> d"
    using mono [of 0 "rd (1 + rd (MARKUP_PERCENTAGE env / 100)) - 1"]
    by (simp add: d_def zero)
  have "0 \<le> rd (d * m1)"
    using mono [of 0 "d * m1"] d mults by (simp add: zero)
  then have M_pos: "0 \<le> M m1"
    using mono [of 0 "1 + rd (d * m1)"] by (simp add: M_def zero)
  have "d * m1 \<le> d * m2" using d mults by (simp add: mult_left_mono)
  then have M_le: "M m1 \<le> M m2"
    unfolding M_def by (intro mono add_left_mono)
  from base M_pos M_le have price: "dominates (rd (B g1 * M m1)) (rd (B g2 * M m2))"
    by (intro dominates_rd [OF rd] dominates_grow)
  have "0 \<le> rd (5 / 1000)" using mono [of 0 "5 / 1000"] by (simp add: zero)
  then have F_pos: "0 \<le> F m1" by (simp add: F_def max_def)
  have "MIN_PRICE_USDC env * m1 \<le> MIN_PRICE_USDC env * m2"
    using floor_price mults by (simp add: mult_left_mono)
  then have "rd (MIN_PRICE_USDC env * m1) \<le> rd (MIN_PRICE_USDC env * m2)" by (rule mono)
  then have F_le: "F m1 \<le> F m2" by (auto simp: F_def max_def)
  from clamp_dominated [OF price F_pos F_le]
  show ?thesis
    by (simp add: final m1_def m2_def g1_def g2_def)
qed

lemma tiers_ordered:
  assumes "faithful rd"
  shows "0 \<le> markupMultiplier (PRIORITY_CONFIGS rd Slow)"
    "markupMultiplier (PRIORITY_CONFIGS rd Slow) \<le> markupMultiplier (PRIORITY_CONFIGS rd Normal)"
    "0 \<le> markupMultiplier (PRIORITY_CONFIGS rd Normal)"
    "markupMultiplier (PRIORITY_CONFIGS rd Normal) \<le> markupMultiplier (PRIORITY_CONFIGS rd Fast)"
    "0 \<le> gasPriceMultiplier (PRIORITY_CONFIGS rd Slow)"
    "gasPriceMultiplier (PRIORITY_CONFIGS rd Slow) \<le> gasPriceMultiplier (PRIORITY_CONFIGS rd Normal)"
    "0 \<le> gasPriceMultiplier (PRIORITY_CONFIGS rd Normal)"
    "gasPriceMultiplier (PRIORITY_CONFIGS rd Normal) \<le> gasPriceMultiplier (PRIORITY_CONFIGS rd Fast)"
proof -
  from assms have mono: "\<And>a b. a \<le> b \<Longrightarrow> rd a \<le> rd b" and zero: "rd 0 = 0"
    by (auto simp: faithful_def)
  have pos: "0 \<le> rd x" if "0 \<le> x" for x using mono [OF that] by (simp add: zero)
  show "0 \<le> markupMultiplier (PRIORITY_CONFIGS rd Slow)"
    "markupMultiplier (PRIORITY_CONFIGS rd Slow) \<le> markupMultiplier (PRIORITY_CONFIGS rd Normal)"
    "0 \<le> markupMultiplier (PRIORITY_CONFIGS rd Normal)"
    "markupMultiplier (PRIORITY_CONFIGS rd Normal) \<le> markupMultiplier (PRIORITY_CONFIGS rd Fast)"
    "0 \<le> gasPriceMultiplier (PRIORITY_CONFIGS rd Slow)"
    "gasPriceMultiplier (PRIORITY_CONFIGS rd Slow) \<le> gasPriceMultiplier (PRIORITY_CONFIGS rd Normal)"
    "0 \<le> gasPriceMultiplier (PRIORITY_CONFIGS rd Normal)"
    "gasPriceMultiplier (PRIORITY_CONFIGS rd Normal) \<le> gasPriceMultiplier (PRIORITY_CONFIGS rd Fast)"
    by (simp_all add: PRIORITY_CONFIGS_def pos mono)
qed

lemma finalPriceRaw_toFixed6:
  "finalPriceRaw (quoteFor rd env cro now baseGasPrice gasEstimate p)
     = toFixed6 (finalPriceUSD (quoteFor rd env cro now baseGasPrice gasEstimate p))"
  by (simp add: quoteFor_def Let_def)

text \<open>
  C5.  With the configuration that \<^verbatim>\<open>envSchema\<close> admits and a rounding that is monotone and
  exact at 0 and 1, for every gas estimate, base gas price and spot price the quoted price
  grows with the tier, in dollars and in stablecoin base units:
  \<open>price(slow) \<le> price(normal) \<le> price(fast)\<close>.
\<close>

theorem price_monotone_in_tier:
  assumes "faithful rd" and "envSchema env"
  shows "finalPriceRaw (quoteFor rd env cro now baseGasPrice gasEstimate Slow)
           \<le> finalPriceRaw (quoteFor rd env cro now baseGasPrice gasEstimate Normal)
       \<and> finalPriceRaw (quoteFor rd env cro now baseGasPrice gasEstimate Normal)
           \<le> finalPriceRaw (quoteFor rd env cro now baseGasPrice gasEstimate Fast)
       \<and> finalPriceUSD (quoteFor rd env cro now baseGasPrice gasEstimate Slow)
           \<le> finalPriceUSD (quoteFor rd env cro now baseGasPrice gasEstimate Normal)
       \<and> finalPriceUSD (quoteFor rd env cro now baseGasPrice gasEstimate Normal)
           \<le> finalPriceUSD (quoteFor rd env cro now baseGasPrice gasEstimate Fast)"
proof -
  note t = tiers_ordered [OF assms(1)]
  have low: "finalPriceUSD (quoteFor rd env cro now baseGasPrice gasEstimate Slow)
           \<le> finalPriceUSD (quoteFor rd env cro now baseGasPrice gasEstimate Normal)"
    by (rule quoteFor_mono [OF assms t(1) t(2) t(5) t(6)])
  have high: "finalPriceUSD (quoteFor rd env cro now baseGasPrice gasEstimate Normal)
           \<le> finalPriceUSD (quoteFor rd env cro now baseGasPrice gasEstimate Fast)"
    by (rule quoteFor_mono [OF assms t(3) t(4) t(7) t(8)])
  from low high show ?thesis
    by (simp add: finalPriceRaw_toFixed6 toFixed6_mono)
qed


lemma faithful_exact: "faithful exact"
  by (simp add: faithful_def exact_def)

theorem price_monotone_in_tier_witness:
  "faithful exact \<and> envSchema demoEnv
   \<and> map (\<lambda>p. finalPriceRaw (quoteFor exact demoEnv (3 / 20) 1700000000000 5000000000000 300000 p))
         [Slow, Normal, Fast] = [198000, 270000, 472500]
   \<and> (198000 :: int) \<le> 270000 \<and> (270000 :: int) \<le> 472500"
proof -
  have env: "envSchema demoEnv"
    by (simp add: envSchema_def demoEnv_def)
  have prices: "map (\<lambda>p. finalPriceRaw (quoteFor exact demoEnv (3 / 20) 1700000000000
                                           5000000000000 300000 p))
                  [Slow, Normal, Fast] = [198000, 270000, 472500]"
    by (simp add: quoteFor_unfold demoEnv_def)
  from price_monotone_in_tier [OF faithful_exact env, of "3 / 20" 1700000000000 5000000000000 300000]
    prices
  have "(198000 :: int) \<le> 270000 \<and> (270000 :: int) \<le> 472500"
    by simp
  with faithful_exact env prices show ?thesis by simp
qed


text \<open>
  C3 (as the code has it).  A batch of three requests of 100000 gas each, with a markup of
  20 percent, a gas price of 5000 gwei and a spot price of 0.15 dollars, at the normal
  tier, in double precision: the answer is 402; the price is computed once, for the summed
  gas 300000, and is 270000 base units (0.27 dollars); the amount required is the
  discounted \<open>\<lfloor>270000 \<times> 0.9\<rfloor> = 243000\<close> base units.  A single request of 100000 gas is
  priced at 90000 base units (0.09 dollars).
\<close>

theorem batch_quote_discounted:
  "(case fst (metaBatchController binary64 doubleServer
                (ledgerChain fundedLedger True 1700000000000) (Some batchBody) NoHeader []) of
      Json code (BatchPaymentRequired required n totalGas shown quote) \<Rightarrow>
        (code, n, totalGas, quoteGasEstimate quote, finalPriceRaw quote,
         maxAmountRequired required, shown)
    | other \<Rightarrow> (0, 0, 0, 0, 0, 0, 0))
     = (402, 3, 300000, 300000, 270000, 243000, 243000)
   \<and> bigint_div (270000 * 90) 100 = 243000
   \<and> \<lfloor>(270000 :: rat) * (9 / 10)\<rfloor> = 243000
   \<and> finalPriceRaw (quoteFor binary64 doubleEnv (binary64 (3 / 20)) 1700000000000 5000000000000
                      100000 Normal) = 90000"
proof -
  have "(case fst (metaBatchController binary64 doubleServer
                (ledgerChain fundedLedger True 1700000000000) (Some batchBody) NoHeader []) of
      Json code (BatchPaymentRequired required n totalGas shown quote) \<Rightarrow>
        (code, n, totalGas, quoteGasEstimate quote, finalPriceRaw quote,
         maxAmountRequired required, shown)
    | other \<Rightarrow> (0, 0, 0, 0, 0, 0, 0))
     = (402 :: int, 3 :: nat, 300000 :: int, 300000 :: int, 270000 :: int, 243000 :: int,
        243000 :: int)"
    by code_simp
  moreover have "bigint_div (270000 * 90) 100 = 243000"
    by (simp add: bigint_div_def)
  moreover have "\<lfloor>(270000 :: rat) * (9 / 10)\<rfloor> = 243000"
    by simp
  moreover have "finalPriceRaw (quoteFor binary64 doubleEnv (binary64 (3 / 20)) 1700000000000
                                  5000000000000 100000 Normal) = 90000"
    by code_simp
  ultimately show ?thesis by blast
qed

text \<open>
  C3 as stated fails: in that scenario the discounted amount is not 48600 base units.
\<close>

theorem batch_quote_discounted_counterexample:
  "bigint_div (finalPriceRaw (quoteFor binary64 doubleEnv (binary64 (3 / 20)) 1700000000000
        5000000000000 (req_gas demoRequest + req_gas demoRequest + req_gas demoRequest) Normal) * 90)
        100 \<noteq> 48600"
  by code_simp


section \<open>Properties of double rounding\<close>

text \<open>
  \<open>ilog2\<close> is the binary logarithm rounded down, \<open>roundHalfEven\<close> is within one half of its
  argument, and \<open>binary64\<close> is monotone, represents the powers of two from \<open>2\<^sup>-\<^sup>1\<^sup>0\<^sup>7\<^sup>4\<close> on
  exactly, and is within half a unit in the last place of its argument.
\<close>

lemma pow2_powi: "pow2 e = 2 powi e"
  by (simp add: pow2_def power_int_def inverse_eq_divide power_one_over)

lemma pow2_pos: "0 < pow2 e"
  by (simp add: pow2_powi)

lemma pow2_add: "pow2 (a + b) = pow2 a * pow2 b"
  by (simp add: pow2_powi power_int_add)

lemma pow2_mono: "a \<le> b \<Longrightarrow> pow2 a \<le> pow2 b"
  by (simp add: pow2_powi power_int_increasing)

lemma pow2_nat: "0 \<le> e \<Longrightarrow> pow2 e = 2 ^ nat e"
  by (simp add: pow2_def)

lemma ilog2_bounds:
  assumes "0 < q"
  shows "pow2 (ilog2 q) \<le> q" and "q < pow2 (ilog2 q + 1)"
proof -
  obtain p d where pd: "quotient_of q = (p, d)" by (cases "quotient_of q")
  then have d: "0 < d" and q: "q = of_int p / of_int d"
    by (auto simp: quotient_of_denom_pos quotient_of_div)
  with assms have p: "0 < p" by (simp add: zero_less_divide_iff)
  define e where "e = bitlen p - bitlen d"
  from bitlen_bounds [OF p] bitlen_bounds [OF d]
  have bp: "2 ^ nat (bitlen p - 1) \<le> p" "p < 2 ^ nat (bitlen p)"
    and bd: "2 ^ nat (bitlen d - 1) \<le> d" "d < 2 ^ nat (bitlen d)"
    by auto
  have lp: "1 \<le> bitlen p" and ld: "1 \<le> bitlen d"
    using p d bitlen_nonneg [of p] bitlen_nonneg [of d] bitlen_eq_zero_iff [of p]
      bitlen_eq_zero_iff [of d] by linarith+
  have P: "pow2 (bitlen p - 1) \<le> of_int p" "of_int p < pow2 (bitlen p)"
  proof -
    have "(of_int (2 ^ nat (bitlen p - 1)) :: rat) \<le> of_int p"
      using bp(1) by (simp only: of_int_le_iff)
    then show "pow2 (bitlen p - 1) \<le> of_int p" using lp by (simp add: pow2_nat)
    have "(of_int p :: rat) < of_int (2 ^ nat (bitlen p))"
      using bp(2) by (simp only: of_int_less_iff)
    then show "of_int p < pow2 (bitlen p)" using lp by (simp add: pow2_nat)
  qed
  have D: "pow2 (bitlen d - 1) \<le> of_int d" "of_int d < pow2 (bitlen d)"
  proof -
    have "(of_int (2 ^ nat (bitlen d - 1)) :: rat) \<le> of_int d"
      using bd(1) by (simp only: of_int_le_iff)
    then show "pow2 (bitlen d - 1) \<le> of_int d" using ld by (simp add: pow2_nat)
    have "(of_int d :: rat) < of_int (2 ^ nat (bitlen d))"
      using bd(2) by (simp only: of_int_less_iff)
    then show "of_int d < pow2 (bitlen d)" using ld by (simp add: pow2_nat)
  qed
  have dpos: "(0 :: rat) < of_int d" using d by simp
  have upper: "q < pow2 (e + 1)"
  proof -
    have "of_int p < pow2 (e + 1) * pow2 (bitlen d - 1)"
      using P(2) by (simp add: e_def flip: pow2_add)
    also have "\<dots> \<le> pow2 (e + 1) * of_int d"
      using D(1) pow2_pos [of "e + 1"] by (simp add: mult_left_mono)
    finally show ?thesis using dpos by (simp add: q pos_divide_less_eq)
  qed
  have lower: "pow2 (e - 1) < q"
  proof -
    have "pow2 (e - 1) * of_int d < pow2 (e - 1) * pow2 (bitlen d)"
      using D(2) pow2_pos [of "e - 1"] by (simp add: mult_strict_left_mono)
    also have "\<dots> = pow2 (bitlen p - 1)"
      by (simp add: e_def flip: pow2_add)
    also have "\<dots> \<le> of_int p" by (rule P(1))
    finally show ?thesis using dpos by (simp add: q pos_less_divide_eq)
  qed
  have il: "ilog2 q = (if pow2 e \<le> q then e else e - 1)"
    by (simp add: ilog2_def pd e_def Let_def)
  show "pow2 (ilog2 q) \<le> q"
    using lower by (auto simp: il)
  show "q < pow2 (ilog2 q + 1)"
    using upper by (auto simp: il)
qed

lemma ilog2_mono:
  assumes "0 < x" "x \<le> y"
  shows "ilog2 x \<le> ilog2 y"
proof (rule ccontr)
  assume "\<not> ilog2 x \<le> ilog2 y"
  then have "ilog2 y + 1 \<le> ilog2 x" by simp
  then have "pow2 (ilog2 y + 1) \<le> pow2 (ilog2 x)" by (rule pow2_mono)
  also have "\<dots> \<le> x" using assms by (intro ilog2_bounds)
  also have "\<dots> \<le> y" by fact
  finally show False using ilog2_bounds(2) [of y] assms by simp
qed

lemma ilog2_less:
  assumes "0 < x" "x < pow2 k"
  shows "ilog2 x < k"
proof (rule ccontr)
  assume "\<not> ilog2 x < k"
  then have "pow2 k \<le> pow2 (ilog2 x)" by (intro pow2_mono) simp
  also have "\<dots> \<le> x" using assms by (intro ilog2_bounds)
  finally show False using assms by simp
qed

lemma pow2_less: "a < b \<Longrightarrow> pow2 a < pow2 b"
  by (simp add: pow2_powi power_int_strict_increasing)

lemma pow2_half: "pow2 1 = 2"
  by (simp add: pow2_def)

lemma roundHalfEven_cases: "roundHalfEven q = \<lfloor>q\<rfloor> \<or> roundHalfEven q = \<lfloor>q\<rfloor> + 1"
  by (simp add: roundHalfEven_def Let_def)

lemma roundHalfEven_error: "\<bar>of_int (roundHalfEven q) - q\<bar> \<le> 1 / 2"
proof -
  have "of_int \<lfloor>q\<rfloor> \<le> q" "q < of_int \<lfloor>q\<rfloor> + 1" by linarith+
  then show ?thesis by (auto simp: roundHalfEven_def Let_def)
qed

lemma roundHalfEven_of_int: "roundHalfEven (of_int n) = n"
  by (simp add: roundHalfEven_def)

lemma roundHalfEven_mono:
  assumes "q \<le> r"
  shows "roundHalfEven q \<le> roundHalfEven r"
proof (cases "\<lfloor>q\<rfloor> = \<lfloor>r\<rfloor>")
  case True
  with assms show ?thesis by (auto simp: roundHalfEven_def Let_def)
next
  case False
  with assms have "\<lfloor>q\<rfloor> + 1 \<le> \<lfloor>r\<rfloor>" using floor_mono [OF assms] by linarith
  moreover have "roundHalfEven q \<le> \<lfloor>q\<rfloor> + 1" using roundHalfEven_cases [of q] by linarith
  moreover have "\<lfloor>r\<rfloor> \<le> roundHalfEven r" using roundHalfEven_cases [of r] by linarith
  ultimately show ?thesis by linarith
qed


lemma binary64_pos: "0 < x \<Longrightarrow> binary64 x = of_int (roundHalfEven (x / pow2 (expo x))) * pow2 (expo x)"
  by (simp add: binary64_def expo_def Let_def)

lemma binary64_minus: "binary64 (- x) = - binary64 x"
  by (simp add: binary64_def Let_def sgn_minus)

lemma binary64_zero: "binary64 0 = 0"
  by (simp add: binary64_def)

lemma pow2_of_int: "0 \<le> k \<Longrightarrow> pow2 k = of_int (2 ^ nat k)"
  by (simp add: pow2_nat)

lemma pow2_diff: "pow2 (a - b) = pow2 a / pow2 b"
  by (simp add: pow2_powi power_int_diff)

lemma binary64_le_pow2:
  assumes "0 < x" "x \<le> pow2 k" "expo x \<le> k"
  shows "binary64 x \<le> pow2 k"
proof -
  have "x / pow2 (expo x) \<le> pow2 (k - expo x)"
    using assms(2) pow2_pos [of "expo x"] by (simp add: pow2_diff divide_right_mono)
  then have "roundHalfEven (x / pow2 (expo x)) \<le> roundHalfEven (pow2 (k - expo x))"
    by (rule roundHalfEven_mono)
  also have "\<dots> = 2 ^ nat (k - expo x)"
    using assms(3) by (simp only: pow2_of_int roundHalfEven_of_int diff_ge_0_iff_ge)
  finally have "(of_int (roundHalfEven (x / pow2 (expo x))) :: rat) \<le> of_int (2 ^ nat (k - expo x))"
    by (simp only: of_int_le_iff)
  also have "\<dots> = pow2 (k - expo x)" using assms(3) by (simp add: pow2_nat)
  finally have "of_int (roundHalfEven (x / pow2 (expo x))) * pow2 (expo x) \<le> pow2 (k - expo x) * pow2 (expo x)"
    using pow2_pos [of "expo x"] by (simp add: mult_right_mono)
  then show ?thesis using assms(1) by (simp add: binary64_pos flip: pow2_add)
qed

lemma binary64_ge_pow2:
  assumes "0 < x" "pow2 k \<le> x" "expo x \<le> k"
  shows "pow2 k \<le> binary64 x"
proof -
  have "pow2 (k - expo x) \<le> x / pow2 (expo x)"
    using assms(2) pow2_pos [of "expo x"] by (simp add: pow2_diff divide_right_mono)
  then have "roundHalfEven (pow2 (k - expo x)) \<le> roundHalfEven (x / pow2 (expo x))"
    by (rule roundHalfEven_mono)
  moreover have "roundHalfEven (pow2 (k - expo x)) = 2 ^ nat (k - expo x)"
    using assms(3) by (simp only: pow2_of_int roundHalfEven_of_int diff_ge_0_iff_ge)
  ultimately have "(of_int (2 ^ nat (k - expo x)) :: rat) \<le> of_int (roundHalfEven (x / pow2 (expo x)))"
    by (simp only: of_int_le_iff)
  moreover have "of_int (2 ^ nat (k - expo x)) = pow2 (k - expo x)" using assms(3) by (simp add: pow2_nat)
  ultimately have "pow2 (k - expo x) * pow2 (expo x) \<le> of_int (roundHalfEven (x / pow2 (expo x))) * pow2 (expo x)"
    using pow2_pos [of "expo x"] by (simp only: mult_right_mono less_imp_le)
  then show ?thesis using assms(1) by (simp add: binary64_pos flip: pow2_add)
qed

lemma binary64_nonneg: "0 \<le> x \<Longrightarrow> 0 \<le> binary64 x"
proof (cases "x = 0")
  case False
  assume "0 \<le> x"
  with False have x: "0 < x" by simp
  have "0 \<le> x / pow2 (expo x)" using x pow2_pos [of "expo x"] by simp
  then have "roundHalfEven 0 \<le> roundHalfEven (x / pow2 (expo x))" by (rule roundHalfEven_mono)
  then have "0 \<le> roundHalfEven (x / pow2 (expo x))" using roundHalfEven_of_int [of 0] by simp
  then show ?thesis using x pow2_pos [of "expo x"] by (simp add: binary64_pos)
qed (simp add: binary64_zero)

lemma binary64_mono_pos:
  assumes "0 < x" "x \<le> y"
  shows "binary64 x \<le> binary64 y"
proof -
  from assms have y: "0 < y" by simp
  have il: "ilog2 x \<le> ilog2 y" using assms by (rule ilog2_mono)
  then have ee: "expo x \<le> expo y" by (simp add: expo_def)
  show ?thesis
  proof (cases "expo x = expo y")
    case True
    have "x / pow2 (expo y) \<le> y / pow2 (expo y)"
      using assms(2) pow2_pos [of "expo y"] by (simp add: divide_right_mono)
    then have "roundHalfEven (x / pow2 (expo y)) \<le> roundHalfEven (y / pow2 (expo y))"
      by (rule roundHalfEven_mono)
    then have "(of_int (roundHalfEven (x / pow2 (expo y))) :: rat) \<le> of_int (roundHalfEven (y / pow2 (expo y)))"
      by (simp only: of_int_le_iff)
    then have "of_int (roundHalfEven (x / pow2 (expo y))) * pow2 (expo y)
        \<le> of_int (roundHalfEven (y / pow2 (expo y))) * pow2 (expo y)"
      using pow2_pos [of "expo y"] by (simp only: mult_right_mono less_imp_le)
    then show ?thesis using assms(1) y True by (simp add: binary64_pos)
  next
    case False
    with ee have lt: "expo x < expo y" by simp
    then have ily: "expo y = ilog2 y - 52" and ilx: "ilog2 x + 1 \<le> ilog2 y"
      by (auto simp: expo_def max_def split: if_splits)
    have "x \<le> pow2 (ilog2 x + 1)" using ilog2_bounds(2) [OF assms(1)] by simp
    also have "\<dots> \<le> pow2 (ilog2 y)" using ilx by (rule pow2_mono)
    finally have "binary64 x \<le> pow2 (ilog2 y)"
      using assms(1) lt ily by (intro binary64_le_pow2) simp_all
    also have "\<dots> \<le> binary64 y"
      using y ilog2_bounds(1) [OF y] ily by (intro binary64_ge_pow2) simp_all
    finally show ?thesis .
  qed
qed

lemma binary64_mono:
  assumes "x \<le> y"
  shows "binary64 x \<le> binary64 y"
proof -
  consider "0 < x" | "x \<le> 0" "0 \<le> y" | "y < 0" by linarith
  then show ?thesis
  proof cases
    case 1
    then show ?thesis using assms by (rule binary64_mono_pos)
  next
    case 2
    have "binary64 x = - binary64 (- x)" by (simp add: binary64_minus)
    moreover have "0 \<le> binary64 (- x)" using 2(1) by (intro binary64_nonneg) simp
    moreover have "0 \<le> binary64 y" using 2(2) by (rule binary64_nonneg)
    ultimately show ?thesis by simp
  next
    case 3
    then have "binary64 (- y) \<le> binary64 (- x)" using assms by (intro binary64_mono_pos) simp_all
    then show ?thesis by (simp add: binary64_minus)
  qed
qed

lemma binary64_pow2:
  assumes "- 1074 \<le> k"
  shows "binary64 (pow2 k) = pow2 k"
proof (rule antisym)
  have il: "ilog2 (pow2 k) \<le> k"
  proof (rule ccontr)
    assume "\<not> ilog2 (pow2 k) \<le> k"
    then have "k + 1 \<le> ilog2 (pow2 k)" by simp
    then have "pow2 (k + 1) \<le> pow2 (ilog2 (pow2 k))" by (rule pow2_mono)
    also have "\<dots> \<le> pow2 k" using pow2_pos [of k] by (intro ilog2_bounds)
    finally show False using pow2_less [of k "k + 1"] by simp
  qed
  then have e: "expo (pow2 k) \<le> k" using assms by (simp add: expo_def)
  show "binary64 (pow2 k) \<le> pow2 k" using pow2_pos [of k] e by (intro binary64_le_pow2) simp_all
  show "pow2 k \<le> binary64 (pow2 k)" using pow2_pos [of k] e by (intro binary64_ge_pow2) simp_all
qed

lemma binary64_one: "binary64 1 = 1"
  using binary64_pow2 [of 0] by (simp add: pow2_def)

lemma faithful_binary64: "faithful binary64"
  unfolding faithful_def using binary64_mono binary64_zero binary64_one by blast

lemma binary64_error:
  assumes "0 \<le> x" "x \<le> pow2 k" "- 1022 \<le> k"
  shows "\<bar>binary64 x - x\<bar> \<le> pow2 (k - 53)"
proof (cases "x = 0")
  case True
  then show ?thesis using pow2_pos [of "k - 53"] by (simp add: binary64_zero)
next
  case False
  with assms have x: "0 < x" by simp
  have il: "ilog2 x \<le> k"
  proof (rule ccontr)
    assume "\<not> ilog2 x \<le> k"
    then have "k + 1 \<le> ilog2 x" by simp
    then have "pow2 (k + 1) \<le> pow2 (ilog2 x)" by (rule pow2_mono)
    also have "\<dots> \<le> x" using x by (intro ilog2_bounds)
    also have "\<dots> \<le> pow2 k" by fact
    finally show False using pow2_less [of k "k + 1"] by simp
  qed
  then have e: "expo x \<le> k - 52" using assms(3) by (simp add: expo_def)
  define m where "m = roundHalfEven (x / pow2 (expo x))"
  have "\<bar>of_int m - x / pow2 (expo x)\<bar> \<le> 1 / 2"
    unfolding m_def by (rule roundHalfEven_error)
  then have "\<bar>of_int m - x / pow2 (expo x)\<bar> * pow2 (expo x) \<le> 1 / 2 * pow2 (expo x)"
    using pow2_pos [of "expo x"] by (simp only: mult_right_mono less_imp_le)
  moreover have "\<bar>of_int m - x / pow2 (expo x)\<bar> * pow2 (expo x) = \<bar>of_int m * pow2 (expo x) - x\<bar>"
  proof -
    have "\<bar>of_int m - x / pow2 (expo x)\<bar> * pow2 (expo x)
        = \<bar>(of_int m - x / pow2 (expo x)) * pow2 (expo x)\<bar>"
      using pow2_pos [of "expo x"] by (simp add: abs_mult)
    also have "(of_int m - x / pow2 (expo x)) * pow2 (expo x) = of_int m * pow2 (expo x) - x"
      using pow2_pos [of "expo x"] by (simp add: left_diff_distrib)
    finally show ?thesis .
  qed
  moreover have "1 / 2 * pow2 (expo x) = pow2 (expo x - 1)"
    by (simp add: pow2_diff pow2_half)
  ultimately have "\<bar>of_int m * pow2 (expo x) - x\<bar> \<le> pow2 (expo x - 1)"
    by linarith
  moreover have "binary64 x = of_int m * pow2 (expo x)"
    using x by (simp only: binary64_pos m_def)
  ultimately have "\<bar>binary64 x - x\<bar> \<le> pow2 (expo x - 1)"
    by (simp only:)
  also have "\<dots> \<le> pow2 (k - 53)" using e by (intro pow2_mono) simp
  finally show ?thesis .
qed

lemma binary64_half: "binary64 (1 / 2) = 1 / 2"
  using binary64_pow2 [of "- 1"] by (simp add: pow2_def)

lemma binary64_two: "binary64 2 = 2"
  using binary64_pow2 [of 1] by (simp add: pow2_def)

lemma binary64_four: "binary64 4 = 4"
  using binary64_pow2 [of 2] by (simp add: pow2_def)

lemma binary64_ten: "binary64 10 = 10"
  by code_simp

lemma binary64_three: "binary64 3 = 3"
  by code_simp

lemma binary64_between:
  assumes "binary64 a = a" "binary64 b = b" "a \<le> x" "x \<le> b"
  shows "a \<le> binary64 x \<and> binary64 x \<le> b"
  using binary64_mono [OF assms(3)] binary64_mono [OF assms(4)] assms(1,2) by simp

lemma markupMultiplier_binary64:
  "markupMultiplier (PRIORITY_CONFIGS binary64 priority)
     = (case priority of Slow \<Rightarrow> 1 / 2 | Normal \<Rightarrow> 1 | Fast \<Rightarrow> 2)"
  by (cases priority) (simp_all add: PRIORITY_CONFIGS_def binary64_half binary64_one binary64_two)

lemma markup_quoteFor:
  "markup (quoteFor rd env cro now baseGasPrice gasEstimate priority)
     = rd (1 + rd (rd (rd (1 + rd (MARKUP_PERCENTAGE env / 100)) - 1)
                     * markupMultiplier (PRIORITY_CONFIGS rd priority)))"
  by (simp add: quoteFor_def Let_def fadd_def fsub_def fmul_def fdiv_def)

lemma markup_accuracy:
  assumes pct: "0 \<le> p" "p \<le> 100" and m: "0 \<le> m" "m \<le> 2"
  defines "a \<equiv> binary64 (p / 100)"
  defines "b \<equiv> binary64 (1 + a)"
  defines "c \<equiv> binary64 (b - 1)"
  defines "d \<equiv> binary64 (c * m)"
  shows "\<bar>binary64 (1 + d) - (1 + p / 100 * m)\<bar> \<le> 1 / 2 ^ 49"
    and "1 \<le> binary64 (1 + d)" and "binary64 (1 + d) \<le> 3"
proof -
  have a: "0 \<le> a" "a \<le> 1" unfolding a_def
    using binary64_between [OF binary64_zero binary64_one, of "p / 100"] pct by simp_all
  have ea: "\<bar>a - p / 100\<bar> \<le> pow2 (0 - 53)" unfolding a_def
    using pct by (intro binary64_error) (simp_all add: pow2_def)
  have b: "1 \<le> b" "b \<le> 2" unfolding b_def
    using binary64_between [OF binary64_one binary64_two, of "1 + a"] a by simp_all
  have eb: "\<bar>b - (1 + a)\<bar> \<le> pow2 (1 - 53)" unfolding b_def
    using a by (intro binary64_error) (simp_all add: pow2_def)
  have c: "0 \<le> c" "c \<le> 1" unfolding c_def
    using binary64_between [OF binary64_zero binary64_one, of "b - 1"] b by simp_all
  have ec: "\<bar>c - (b - 1)\<bar> \<le> pow2 (0 - 53)" unfolding c_def
    using b by (intro binary64_error) (simp_all add: pow2_def)
  have cm: "0 \<le> c * m" "c * m \<le> 2"
    using c m mult_mono [of c 1 m 2] by simp_all
  have d: "0 \<le> d" "d \<le> 2" unfolding d_def
    using binary64_between [OF binary64_zero binary64_two, of "c * m"] cm by simp_all
  have ed: "\<bar>d - c * m\<bar> \<le> pow2 (1 - 53)" unfolding d_def
    using cm by (intro binary64_error) (simp_all add: pow2_def)
  show lo: "1 \<le> binary64 (1 + d)" and hi: "binary64 (1 + d) \<le> 3"
    using binary64_between [OF binary64_one binary64_three, of "1 + d"] d by simp_all
  have ee: "\<bar>binary64 (1 + d) - (1 + d)\<bar> \<le> pow2 (2 - 53)"
    using d by (intro binary64_error) (simp_all add: pow2_def)
  have "\<bar>c - p / 100\<bar> \<le> pow2 (0 - 53) + pow2 (1 - 53) + pow2 (0 - 53)"
    using ea eb ec by linarith
  then have "\<bar>c - p / 100\<bar> * m \<le> (pow2 (0 - 53) + pow2 (1 - 53) + pow2 (0 - 53)) * 2"
    using m by (intro mult_mono) simp_all
  moreover have "\<bar>c * m - p / 100 * m\<bar> = \<bar>c - p / 100\<bar> * m"
  proof -
    have "c * m - p / 100 * m = (c - p / 100) * m" by (simp only: left_diff_distrib)
    then show ?thesis using m by (simp only: abs_mult abs_of_nonneg)
  qed
  ultimately have "\<bar>c * m - p / 100 * m\<bar> \<le> (pow2 (0 - 53) + pow2 (1 - 53) + pow2 (0 - 53)) * 2"
    by simp
  with ed ee have "\<bar>binary64 (1 + d) - (1 + p / 100 * m)\<bar>
      \<le> (pow2 (0 - 53) + pow2 (1 - 53) + pow2 (0 - 53)) * 2 + pow2 (1 - 53) + pow2 (2 - 53)"
    by linarith
  also have "\<dots> \<le> 1 / 2 ^ 49" by (simp add: pow2_def)
  finally show "\<bar>binary64 (1 + d) - (1 + p / 100 * m)\<bar> \<le> 1 / 2 ^ 49" .
qed


section \<open>The markup and the clamps\<close>

lemma toFixed6_floor: "toFixed6 (binary64 (5 / 1000)) = 5000"
  by code_simp

lemma toFixed6_ten: "toFixed6 10 = 10000000"
  by code_simp

lemma binary64_small: "binary64 (5 / 1000) \<le> 10"
  using binary64_mono [of "5 / 1000" 10] by (simp add: binary64_ten)

lemma finalPriceUSD_quoteFor:
  "finalPriceUSD (quoteFor rd env cro now baseGasPrice gasEstimate priority)
     = min (max (rd (baseCostUSD (quoteFor rd env cro now baseGasPrice gasEstimate priority)
                      * markup (quoteFor rd env cro now baseGasPrice gasEstimate priority)))
                (max (rd (MIN_PRICE_USDC env * markupMultiplier (PRIORITY_CONFIGS rd priority)))
                     (rd (5 / 1000))))
           (rd 10)"
  by (simp add: quoteFor_def Let_def fmul_def MAX_PRICE_USDC_def)

lemma finalPriceRaw_quoteFor:
  "finalPriceRaw (quoteFor rd env cro now baseGasPrice gasEstimate priority)
     = toFixed6 (finalPriceUSD (quoteFor rd env cro now baseGasPrice gasEstimate priority))"
  by (simp add: quoteFor_def Let_def)

lemma priorityConfig_quoteFor:
  "priorityConfig (quoteFor rd env cro now baseGasPrice gasEstimate priority)
     = PRIORITY_CONFIGS rd priority"
  by (simp add: quoteFor_def Let_def)

lemma adjustedGasPrice_quoteFor:
  "adjustedGasPrice (quoteFor rd env cro now baseGasPrice gasEstimate priority)
     = \<lfloor>rd (rd (of_int baseGasPrice) * gasPriceMultiplier (PRIORITY_CONFIGS rd priority))\<rfloor>"
  by (simp add: quoteFor_def Let_def fmul_def Number_of_bigint_def)

lemma baseCostUSD_quoteFor:
  "baseCostUSD (quoteFor rd env cro now baseGasPrice gasEstimate priority)
     = rd (rd (of_int (gasEstimate
                 * adjustedGasPrice (quoteFor rd env cro now baseGasPrice gasEstimate priority))
               / 10 ^ 18) * cro)"
  by (simp add: quoteFor_def Let_def fmul_def Number_formatUnits_def)

lemma calculatePrice_returns:
  assumes "fst (getGasPrice ch tr) = Inr baseGasPrice"
  shows "fst (calculatePrice rd env pricing ch gasEstimate priority tr)
     = (let quote = quoteFor rd env (pricingCroUsdPrice pricing)
                      (dateNow ch (snd (getGasPrice ch tr))) baseGasPrice gasEstimate priority
        in if formatUnitsRange (adjustedGasPrice quote)
              \<and> formatUnitsRange (gasEstimate * adjustedGasPrice quote)
           then Inr quote else Inl (Error ''overflow''))"
  using assms by (cases "getGasPrice ch tr") (simp add: calculatePrice_def Let_def)

lemma calculatePrice_throws:
  assumes "fst (getGasPrice ch tr) = Inl e"
  shows "fst (calculatePrice rd env pricing ch gasEstimate priority tr) = Inl e"
  using assms by (cases "getGasPrice ch tr") (simp add: calculatePrice_def)

text \<open>
  C4 (as the code has it, in double arithmetic).  Let the configuration satisfy
  \<^verbatim>\<open>envSchema\<close>, let \<open>m\<close> be the markup multiplier of the tier (0.5, 1 or 2), \<open>quote\<close> the
  quote built from the gas price read, \<open>price\<close> the rounded product of its base cost and
  its markup, and \<open>least\<close> the larger of the rounded \<open>min \<times> m\<close> and the double 0.005.
  \<^verbatim>\<open>calculatePrice\<close> throws when the fee data cannot be read and when the adjusted gas
  price or the gas cost in wei is outside the range of \<^verbatim>\<open>formatUnits\<close>; otherwise it
  returns \<open>quote\<close>.  The markup of \<open>quote\<close> is \<open>1 + ((1 + pct / 100) - 1) \<times> m\<close> with every
  operation rounded, which lies between 1 and 3 and within \<open>2\<^sup>-\<^sup>4\<^sup>9\<close> of \<open>1 + (pct / 100) \<times> m\<close>.
  The final price is \<open>price\<close> raised to \<open>least\<close> and then lowered to 10, in that order: it is
  \<open>price\<close> when \<open>least \<le> price \<le> 10\<close>, it is \<open>least\<close> when \<open>price < least \<le> 10\<close>, and it is 10
  as soon as \<open>price\<close> or \<open>least\<close> exceeds 10.  The raw amount is therefore between 5000 and
  10000000 base units.
\<close>

theorem calculatePrice_markup_then_clamp:
  assumes "envSchema env"
    and "quote = quoteFor binary64 env (pricingCroUsdPrice pricing)
                   (dateNow ch (snd (getGasPrice ch tr))) baseGasPrice gasEstimate priority"
    and "m = (case priority of Slow \<Rightarrow> 1 / 2 | Normal \<Rightarrow> 1 | Fast \<Rightarrow> 2)"
    and "price = binary64 (baseCostUSD quote * markup quote)"
    and "least = max (binary64 (MIN_PRICE_USDC env * m)) (binary64 (5 / 1000))"
  shows "(fst (getGasPrice ch tr) = Inl e
            \<longrightarrow> fst (calculatePrice binary64 env pricing ch gasEstimate priority tr) = Inl e)
       \<and> (fst (getGasPrice ch tr) = Inr baseGasPrice
            \<longrightarrow> fst (calculatePrice binary64 env pricing ch gasEstimate priority tr)
                = (if formatUnitsRange (adjustedGasPrice quote)
                      \<and> formatUnitsRange (gasEstimate * adjustedGasPrice quote)
                   then Inr quote else Inl (Error ''overflow'')))
       \<and> markupMultiplier (priorityConfig quote) = m
       \<and> markup quote
           = binary64 (1 + binary64 (binary64 (binary64 (1 + binary64 (MARKUP_PERCENTAGE env / 100)) - 1) * m))
       \<and> \<bar>markup quote - (1 + MARKUP_PERCENTAGE env / 100 * m)\<bar> \<le> 1 / 2 ^ 49
       \<and> 1 \<le> markup quote \<and> markup quote \<le> 3
       \<and> finalPriceUSD quote = min (max price least) 10
       \<and> (least \<le> price \<and> price \<le> 10 \<longrightarrow> finalPriceUSD quote = price)
       \<and> (price < least \<and> least \<le> 10 \<longrightarrow> finalPriceUSD quote = least)
       \<and> (10 < price \<or> 10 < least \<longrightarrow> finalPriceUSD quote = 10)
       \<and> finalPriceRaw quote = toFixed6 (finalPriceUSD quote)
       \<and> 5000 \<le> finalPriceRaw quote \<and> finalPriceRaw quote \<le> 10000000"
proof -
  have pct: "0 \<le> MARKUP_PERCENTAGE env" "MARKUP_PERCENTAGE env \<le> 100"
    using assms(1) by (simp_all add: envSchema_def)
  have mult: "markupMultiplier (PRIORITY_CONFIGS binary64 priority) = m"
    by (simp only: assms(3) markupMultiplier_binary64)
  have m: "0 \<le> m" "m \<le> 2"
    unfolding assms(3) by (cases priority; simp)+
  have mk: "markup quote
      = binary64 (1 + binary64 (binary64 (binary64 (1 + binary64 (MARKUP_PERCENTAGE env / 100)) - 1) * m))"
    by (simp only: assms(2) markup_quoteFor mult)
  note acc = markup_accuracy [OF pct m, folded mk]
  have final: "finalPriceUSD quote = min (max price least) 10"
    by (simp only: assms(2,4,5) finalPriceUSD_quoteFor mult binary64_ten)
  have raw: "finalPriceRaw quote = toFixed6 (finalPriceUSD quote)"
    by (simp only: assms(2) finalPriceRaw_quoteFor)
  have "binary64 (5 / 1000) \<le> least" by (simp add: assms(5))
  with binary64_small have "binary64 (5 / 1000) \<le> finalPriceUSD quote"
    by (simp add: final)
  then have "toFixed6 (binary64 (5 / 1000)) \<le> finalPriceRaw quote"
    unfolding raw by (rule toFixed6_mono)
  then have low: "5000 \<le> finalPriceRaw quote" by (simp only: toFixed6_floor)
  have "finalPriceUSD quote \<le> 10" by (simp add: final)
  then have "finalPriceRaw quote \<le> toFixed6 10"
    unfolding raw by (rule toFixed6_mono)
  then have high: "finalPriceRaw quote \<le> 10000000" by (simp only: toFixed6_ten)
  have returns: "fst (getGasPrice ch tr) = Inr baseGasPrice
            \<longrightarrow> fst (calculatePrice binary64 env pricing ch gasEstimate priority tr)
                = (if formatUnitsRange (adjustedGasPrice quote)
                      \<and> formatUnitsRange (gasEstimate * adjustedGasPrice quote)
                   then Inr quote else Inl (Error ''overflow''))"
    using calculatePrice_returns [of ch tr baseGasPrice binary64 env pricing gasEstimate priority]
    by (simp add: assms(2) Let_def)
  have throws: "fst (getGasPrice ch tr) = Inl e
            \<longrightarrow> fst (calculatePrice binary64 env pricing ch gasEstimate priority tr) = Inl e"
    using calculatePrice_throws [of ch tr e] by simp
  have config: "markupMultiplier (priorityConfig quote) = m"
    by (simp only: assms(2) priorityConfig_quoteFor mult)
  have order: "(least \<le> price \<and> price \<le> 10 \<longrightarrow> finalPriceUSD quote = price)
       \<and> (price < least \<and> least \<le> 10 \<longrightarrow> finalPriceUSD quote = least)
       \<and> (10 < price \<or> 10 < least \<longrightarrow> finalPriceUSD quote = 10)"
    unfolding final by (auto simp: min_def max_def)
  from throws returns config mk acc final order raw low high show ?thesis
    by blast
qed

theorem calculatePrice_markup_then_clamp_witness:
  "envSchema doubleEnv
   \<and> fst (getGasPrice (ledgerChain fundedLedger True 1700000000000) []) = Inr 5000000000000
   \<and> fst (calculatePrice binary64 doubleEnv (pricingService doubleServer)
            (ledgerChain fundedLedger True 1700000000000) 100000 Fast [])
       = Inr (quoteFor binary64 doubleEnv (binary64 (3 / 20)) 1700000000000 5000000000000
                100000 Fast)
   \<and> markup (quoteFor binary64 doubleEnv (binary64 (3 / 20)) 1700000000000 5000000000000
                100000 Fast) = 3152519739159347 / 2251799813685248
   \<and> \<bar>markup (quoteFor binary64 doubleEnv (binary64 (3 / 20)) 1700000000000 5000000000000
                 100000 Fast) - 7 / 5\<bar> \<le> 1 / 2 ^ 49
   \<and> finalPriceUSD (quoteFor binary64 doubleEnv (binary64 (3 / 20)) 1700000000000
                       5000000000000 100000 Fast) = 709316941310853 / 4503599627370496
   \<and> finalPriceRaw (quoteFor binary64 doubleEnv (binary64 (3 / 20)) 1700000000000
                       5000000000000 100000 Fast) = 157500
   \<and> fst (getGasPrice feeDownChain []) = Inl (Error ''network error'')
   \<and> fst (calculatePrice binary64 doubleEnv (pricingService doubleServer) feeDownChain 100000
            Fast []) = Inl (Error ''network error'')"
proof -
  let ?ch = "ledgerChain fundedLedger True 1700000000000"
  let ?Q = "quoteFor binary64 doubleEnv (binary64 (3 / 20)) 1700000000000 5000000000000
              100000 Fast"
  have twenty: "binary64 20 = 20"
    by code_simp
  have pct: "MARKUP_PERCENTAGE doubleEnv = 20"
    by (simp add: doubleEnv_def twenty)
  have least: "MIN_PRICE_USDC doubleEnv = binary64 (1 / 100)"
    by (simp add: doubleEnv_def)
  have schema: "envSchema doubleEnv"
    by code_simp
  have fee: "fst (getGasPrice ?ch []) = Inr 5000000000000"
    by (simp add: getGasPrice_def ledgerChain_def throughRpc_def)
  have down: "fst (getGasPrice feeDownChain []) = Inl (Error ''network error'')"
    by (simp add: getGasPrice_def feeDownChain_def)
  have quote: "?Q = quoteFor binary64 doubleEnv (pricingCroUsdPrice (pricingService doubleServer))
                      (dateNow ?ch (snd (getGasPrice ?ch []))) 5000000000000 100000 Fast"
    by (simp add: doubleServer_def startServer_def Let_def ledgerChain_def)
  note run = calculatePrice_markup_then_clamp [OF schema quote refl refl refl]
  have adjusted: "adjustedGasPrice ?Q = 7500000000000"
    by (simp only: adjustedGasPrice_quoteFor) code_simp
  have range: "formatUnitsRange (adjustedGasPrice ?Q)
               \<and> formatUnitsRange (100000 * adjustedGasPrice ?Q)"
    by (simp add: adjusted formatUnitsRange_def)
  have "binary64 (binary64 (of_int (100000 * 7500000000000) / 10 ^ 18) * binary64 (3 / 20))
          = 2026619832316723 / 18014398509481984"
    by code_simp
  then have base: "baseCostUSD ?Q = 2026619832316723 / 18014398509481984"
    by (simp only: baseCostUSD_quoteFor adjusted)
  have returned: "fst (calculatePrice binary64 doubleEnv (pricingService doubleServer) ?ch 100000
                        Fast []) = Inr ?Q"
    using run [THEN conjunct2, THEN conjunct1] fee range by simp
  have "binary64 (1 + binary64 (binary64 (binary64 (1 + binary64 (20 / 100)) - 1) * 2))
          = 3152519739159347 / 2251799813685248"
    by code_simp
  then have mk: "markup ?Q = 3152519739159347 / 2251799813685248"
    using run [THEN conjunct2, THEN conjunct2, THEN conjunct2, THEN conjunct1]
    by (simp only: pct Priority.case)
  have near: "\<bar>markup ?Q - 7 / 5\<bar> \<le> 1 / 2 ^ 49"
    using run [THEN conjunct2, THEN conjunct2, THEN conjunct2, THEN conjunct2, THEN conjunct1]
    by (simp add: pct)
  have "min (max (binary64 (2026619832316723 / 18014398509481984
                              * (3152519739159347 / 2251799813685248)))
                 (max (binary64 (binary64 (1 / 100) * 2)) (binary64 (5 / 1000)))) 10
          = 709316941310853 / 4503599627370496"
    by code_simp
  then have final: "finalPriceUSD ?Q = 709316941310853 / 4503599627370496"
    using run [THEN conjunct2, THEN conjunct2, THEN conjunct2, THEN conjunct2, THEN conjunct2,
      THEN conjunct2, THEN conjunct2, THEN conjunct1]
    by (simp only: base mk least Priority.case)
  have "toFixed6 (709316941310853 / 4503599627370496) = 157500"
    by code_simp
  then have raw: "finalPriceRaw ?Q = 157500"
    using run [THEN conjunct2, THEN conjunct2, THEN conjunct2, THEN conjunct2, THEN conjunct2,
      THEN conjunct2, THEN conjunct2, THEN conjunct2, THEN conjunct2, THEN conjunct2,
      THEN conjunct2, THEN conjunct1]
    by (simp only: final)
  have thrown: "fst (calculatePrice binary64 doubleEnv (pricingService doubleServer) feeDownChain
                       100000 Fast []) = Inl (Error ''network error'')"
    using calculatePrice_markup_then_clamp [where ch = feeDownChain and tr = "[]"
      and e = "Error ''network error''", OF schema refl refl refl refl, THEN conjunct1] down
    by simp
  from schema fee returned mk near final raw down thrown show ?thesis
    by blast
qed

text \<open>
  C4 as stated fails.  With a markup of 10 percent at the fast tier the code's markup is
  the double above 1.2, while \<open>1 + (10 / 100) \<times> 2\<close> is 1.2 exactly and the double nearest
  to 1.2 in double arithmetic; for 21030 gas the code quotes 28391 base units where the
  specification's formula, evaluated in the same arithmetic on the same base cost, gives
  28390.  And not every gas estimate is priced: for \<open>10\<^sup>1\<^sup>5\<^sup>0\<close> gas \<^verbatim>\<open>calculatePrice\<close> throws.
\<close>

theorem calculatePrice_markup_then_clamp_counterexample:
  "markup (quoteFor binary64 tenPercentEnv (binary64 (3 / 20)) 1700000000000 5000000000000
             21030 Fast) = 1351079888211149 / 1125899906842624
   \<and> spec_markup binary64 tenPercentEnv Fast = 5404319552844595 / 4503599627370496
   \<and> spec_markup exact tenPercentEnv Fast = 6 / 5
   \<and> finalPriceRaw (quoteFor binary64 tenPercentEnv (binary64 (3 / 20)) 1700000000000
                       5000000000000 21030 Fast) = 28391
   \<and> toFixed6 (spec_priceUsd binary64 tenPercentEnv Fast
                 (baseCostUSD (quoteFor binary64 tenPercentEnv (binary64 (3 / 20)) 1700000000000
                                 5000000000000 21030 Fast))) = 28390
   \<and> fst (calculatePrice binary64 doubleEnv (pricingService doubleServer)
            (ledgerChain fundedLedger True 1700000000000) (10 ^ 150) Normal [])
       = Inl (Error ''overflow'')"
proof -
  let ?ch = "ledgerChain fundedLedger True 1700000000000"
  let ?Q = "quoteFor binary64 tenPercentEnv (binary64 (3 / 20)) 1700000000000 5000000000000
              21030 Fast"
  have ten: "binary64 10 = 10"
    by code_simp
  have pct: "MARKUP_PERCENTAGE tenPercentEnv = 10"
    by (simp add: tenPercentEnv_def ten)
  have least: "MIN_PRICE_USDC tenPercentEnv = binary64 (1 / 100)"
    by (simp add: tenPercentEnv_def doubleEnv_def)
  have fast: "markupMultiplier (PRIORITY_CONFIGS rd Fast) = rd 2" for rd
    by (simp add: PRIORITY_CONFIGS_def)
  have "binary64 (1 + binary64 (binary64 (binary64 (1 + binary64 (10 / 100)) - 1) * binary64 2))
          = 1351079888211149 / 1125899906842624"
    by code_simp
  then have mk: "markup ?Q = 1351079888211149 / 1125899906842624"
    by (simp only: markup_quoteFor pct fast)
  have "binary64 (1 + binary64 (binary64 (10 / 100) * binary64 2))
          = 5404319552844595 / 4503599627370496"
    by code_simp
  then have spec: "spec_markup binary64 tenPercentEnv Fast = 5404319552844595 / 4503599627370496"
    by (simp only: spec_markup_def fadd_def fmul_def fdiv_def pct fast)
  have exactly: "spec_markup exact tenPercentEnv Fast = 6 / 5"
    by (simp add: spec_markup_def fadd_def fmul_def fdiv_def pct fast exact_def)
  have adjusted: "adjustedGasPrice ?Q = 7500000000000"
    by (simp only: adjustedGasPrice_quoteFor) code_simp
  have "binary64 (binary64 (of_int (21030 * 7500000000000) / 10 ^ 18) * binary64 (3 / 20))
          = 3409585205889655 / 144115188075855872"
    by code_simp
  then have base: "baseCostUSD ?Q = 3409585205889655 / 144115188075855872"
    by (simp only: baseCostUSD_quoteFor adjusted)
  have "toFixed6 (min (max (binary64 (3409585205889655 / 144115188075855872
                                       * (1351079888211149 / 1125899906842624)))
                          (max (binary64 (binary64 (1 / 100) * binary64 2)) (binary64 (5 / 1000))))
                     (binary64 10)) = 28391"
    by code_simp
  then have raw: "finalPriceRaw ?Q = 28391"
    by (simp only: finalPriceRaw_quoteFor finalPriceUSD_quoteFor base mk least fast)
  have "toFixed6 (min (max (binary64 (3409585205889655 / 144115188075855872
                                       * (5404319552844595 / 4503599627370496)))
                          (max (binary64 (binary64 (1 / 100) * binary64 2)) (binary64 (5 / 1000))))
                     (binary64 10)) = 28390"
    by code_simp
  then have spec_raw: "toFixed6 (spec_priceUsd binary64 tenPercentEnv Fast (baseCostUSD ?Q)) = 28390"
    by (simp only: spec_priceUsd_def fmul_def MAX_PRICE_USDC_def base spec least fast)
  let ?H = "quoteFor binary64 doubleEnv (pricingCroUsdPrice (pricingService doubleServer))
              (dateNow ?ch (snd (getGasPrice ?ch []))) 5000000000000 (10 ^ 150) Normal"
  have fee: "fst (getGasPrice ?ch []) = Inr 5000000000000"
    by (simp add: getGasPrice_def ledgerChain_def throughRpc_def)
  have huge: "adjustedGasPrice ?H = 5000000000000"
    by (simp only: adjustedGasPrice_quoteFor) code_simp
  have "\<not> formatUnitsRange (10 ^ 150 * adjustedGasPrice ?H)"
    unfolding huge by (simp add: formatUnitsRange_def)
  then have thrown: "fst (calculatePrice binary64 doubleEnv (pricingService doubleServer) ?ch
                            (10 ^ 150) Normal []) = Inl (Error ''overflow'')"
    using calculatePrice_returns [OF fee, of binary64 doubleEnv "pricingService doubleServer"
      "10 ^ 150" Normal]
    by (simp add: Let_def)
  from mk spec exactly raw spec_raw thrown show ?thesis
    by blast
qed


section \<open>Properties of the health check\<close>







end
